theory Spec2Isabelle
  imports Complex_Main
begin

section \<open>Python values used by the compositor\<close>

text \<open>
  The compositor (\<^verbatim>\<open>src/image_compositor/compositor.py\<close>) is Python. Its integers are
  unbounded (\<^typ>\<open>int\<close>), its strings are sequences of Unicode code points, and the
  lengths that the imaging library measures are floating-point numbers, taken here as
  exact rationals (\<^typ>\<open>rat\<close>).
  The floating-point products and quotients of the source (\<^verbatim>\<open>width * 0.1\<close>,
  \<^verbatim>\<open>img_width * 0.08\<close>, \<^verbatim>\<open>80 * 0.2\<close>, \<^verbatim>\<open>usable / avg_char_width\<close>) are computed
  exactly; rounding is not modelled.
\<close>

text \<open>
  A text (\<^verbatim>\<open>str\<close>) is the list of its code points; \<open>ustr\<close> gives the text of an ASCII
  literal. The code points named below are 9 (tab), 10 (line feed), 13 (carriage return),
  32 (space), 45 (hyphen), 46 (full stop) and 95 (underscore). File paths, image modes,
  colour names and anchors are kept as \<^typ>\<open>string\<close>.
\<close>

type_synonym ustring = "nat list"

definition ustr :: "string \<Rightarrow> ustring" where
  "ustr s = map of_char s"

text \<open>
  The tables of the Unicode database that the wrapping reads: \<^verbatim>\<open>str.isalnum\<close> (the
  regular expression class \<^verbatim>\<open>\w\<close> is \<^verbatim>\<open>isalnum\<close> or the underscore), \<^verbatim>\<open>str.isdecimal\<close>
  (the class \<^verbatim>\<open>\d\<close>) and \<^verbatim>\<open>str.isspace\<close> (what \<^verbatim>\<open>str.strip()\<close> removes). They are
  parameters of the model.
\<close>

record ucd =
  uc_alnum :: "nat \<Rightarrow> bool"
  uc_decimal :: "nat \<Rightarrow> bool"
  uc_space :: "nat \<Rightarrow> bool"

text \<open>\<^verbatim>\<open>int(x)\<close> on a number truncates towards zero.\<close>

definition py_int :: "rat \<Rightarrow> int" where
  "py_int x = (if 0 \<le> x then \<lfloor>x\<rfloor> else \<lceil>x\<rceil>)"

text \<open>The slices \<^verbatim>\<open>s[:e]\<close> and \<^verbatim>\<open>s[e:]\<close>; a negative index counts from the end.\<close>

definition py_take :: "int \<Rightarrow> 'a list \<Rightarrow> 'a list" where
  "py_take e s = (if e < 0 then take (length s - nat (- e)) s else take (nat e) s)"

definition py_drop :: "int \<Rightarrow> 'a list \<Rightarrow> 'a list" where
  "py_drop e s = (if e < 0 then drop (length s - nat (- e)) s else drop (nat e) s)"

text \<open>\<^verbatim>\<open>s.rfind(c, 0, e)\<close>: the highest index below \<open>e\<close> that holds \<open>c\<close>, or \<open>-1\<close>.\<close>

definition rfind :: "'a list \<Rightarrow> 'a \<Rightarrow> int \<Rightarrow> int" where
  "rfind s c e =
     (let pre = py_take e s
      in if c \<in> set pre
         then int (length pre) - 1 - int (length (takeWhile (\<lambda>x. x \<noteq> c) (rev pre)))
         else - 1)"

text \<open>\<^verbatim>\<open>str.strip()\<close> removes the leading and trailing \<^verbatim>\<open>isspace\<close> characters.\<close>

definition strip :: "ucd \<Rightarrow> ustring \<Rightarrow> ustring" where
  "strip U s = rev (dropWhile (uc_space U) (rev (dropWhile (uc_space U) s)))"

text \<open>
  \<^verbatim>\<open>str.expandtabs(tabsize)\<close>: a tab becomes the spaces that reach the next multiple of
  \<open>tabsize\<close>; the column restarts after a newline or a carriage return.
\<close>

fun expandtabs_from :: "nat \<Rightarrow> nat \<Rightarrow> ustring \<Rightarrow> ustring" where
  "expandtabs_from tabsize j [] = []"
| "expandtabs_from tabsize j (c # cs) =
     (if c = 9 then
        (if 0 < tabsize then
           (let incr = tabsize - j mod tabsize
            in replicate incr 32 @ expandtabs_from tabsize (j + incr) cs)
         else expandtabs_from tabsize j cs)
      else c # expandtabs_from tabsize (if c = 10 \<or> c = 13 then 0 else j + 1) cs)"

definition expandtabs :: "nat \<Rightarrow> ustring \<Rightarrow> ustring" where
  "expandtabs tabsize s = expandtabs_from tabsize 0 s"

section \<open>The standard library's \<^verbatim>\<open>textwrap.wrap\<close>\<close>

text \<open>
  Both renderers wrap with \<^verbatim>\<open>textwrap.wrap(text, width=w)\<close> and no other option, so the
  wrapper runs with its defaults: \<^verbatim>\<open>expand_tabs\<close>, \<^verbatim>\<open>replace_whitespace\<close>,
  \<^verbatim>\<open>drop_whitespace\<close>, \<^verbatim>\<open>break_long_words\<close> and \<^verbatim>\<open>break_on_hyphens\<close> true,
  \<^verbatim>\<open>fix_sentence_endings\<close> false, empty indents, \<^verbatim>\<open>tabsize\<close> 8, \<^verbatim>\<open>max_lines\<close> None.
  The definitions follow \<^verbatim>\<open>Lib/textwrap.py\<close> of CPython 3.11 with these defaults.
\<close>

subsection \<open>Character classes of \<^verbatim>\<open>wordsep_re\<close>\<close>

definition is_whitespace :: "nat \<Rightarrow> bool" where
  \<comment> \<open>\<^verbatim>\<open>_whitespace = '\t\n\x0b\x0c\r '\<close>\<close>
  "is_whitespace c = (c \<in> set [9, 10, 11, 12, 13, 32])"

definition is_digit :: "ucd \<Rightarrow> nat \<Rightarrow> bool" where
  \<comment> \<open>\<^verbatim>\<open>\d\<close>\<close>
  "is_digit U c = uc_decimal U c"

definition is_word :: "ucd \<Rightarrow> nat \<Rightarrow> bool" where
  \<comment> \<open>\<^verbatim>\<open>\w\<close>\<close>
  "is_word U c = (uc_alnum U c \<or> c = 95)"

definition is_letter :: "ucd \<Rightarrow> nat \<Rightarrow> bool" where
  \<comment> \<open>\<^verbatim>\<open>[^\d\W]\<close>\<close>
  "is_letter U c = (is_word U c \<and> \<not> is_digit U c)"

definition is_word_punct :: "ucd \<Rightarrow> nat \<Rightarrow> bool" where
  \<comment> \<open>\<^verbatim>\<open>[\w!"'&.,?]\<close>: the word characters and the code points 33, 34, 39, 38, 46, 44, 63\<close>
  "is_word_punct U c = (is_word U c \<or> c \<in> set [33, 34, 39, 38, 46, 44, 63])"

subsection \<open>Splitting into chunks\<close>

definition munge_whitespace :: "ustring \<Rightarrow> ustring" where
  "munge_whitespace text =
     map (\<lambda>c. if is_whitespace c then 32 else c) (expandtabs 8 text)"

text \<open>\<^verbatim>\<open>-{2,}\w\<close> matches at the head of the text.\<close>

definition emdash_ahead :: "ucd \<Rightarrow> ustring \<Rightarrow> bool" where
  "emdash_ahead U s =
     (let r = dropWhile (\<lambda>c. c = 45) s
      in 2 \<le> length (takeWhile (\<lambda>c. c = 45) s) \<and> r \<noteq> [] \<and> is_word U (hd r))"

text \<open>
  The two look-behinds of the hyphenated-word branch, \<^verbatim>\<open>(?<=lt{2}-)\<close> and
  \<^verbatim>\<open>(?<=lt-lt-)\<close>, read on the text that precedes the hyphen, last character first; and its
  look-ahead \<^verbatim>\<open>(?= lt -? lt)\<close> on the text after the hyphen.
\<close>

fun hyphen_behind :: "ucd \<Rightarrow> ustring \<Rightarrow> bool" where
  "hyphen_behind U (a # b # rest) =
     ((is_letter U a \<and> is_letter U b) \<or>
      (is_letter U a \<and> b = 45 \<and> (case rest of [] \<Rightarrow> False | c # _ \<Rightarrow> is_letter U c)))"
| "hyphen_behind U _ = False"

fun hyphen_ahead :: "ucd \<Rightarrow> ustring \<Rightarrow> bool" where
  "hyphen_ahead U (a # b # rest) =
     (is_letter U a \<and>
      ((b = 45 \<and> (case rest of [] \<Rightarrow> False | c # _ \<Rightarrow> is_letter U c)) \<or> is_letter U b))"
| "hyphen_ahead U _ = False"

text \<open>
  The third branch of \<^verbatim>\<open>wordsep_re\<close>: a shortest run of non-whitespace characters that
  ends after the hyphen of a hyphenated word, in front of whitespace or the end of the
  text, or in front of an em-dash. \<open>seen\<close> is the text read so far, last character first, and
  \<open>tok\<close> the part of it that belongs to this match.
\<close>

fun word_end :: "ucd \<Rightarrow> ustring \<Rightarrow> ustring \<Rightarrow> ustring \<Rightarrow> ustring \<times> ustring" where
  "word_end U seen tok [] = (rev tok, [])"
| "word_end U seen tok (c # cs) =
     (if c = 45 \<and> hyphen_behind U seen \<and> hyphen_ahead U cs then (rev (c # tok), cs)
      else if is_whitespace c then (rev tok, c # cs)
      else if (case seen of [] \<Rightarrow> False | p # _ \<Rightarrow> is_word_punct U p) \<and> emdash_ahead U (c # cs)
      then (rev tok, c # cs)
      else word_end U (c # seen) (c # tok) cs)"

lemma word_end_length: "length (snd (word_end U seen tok cs)) \<le> length cs"
  by (induction cs arbitrary: seen tok) (auto intro: le_SucI)

text \<open>
  \<^verbatim>\<open>wordsep_re.split(text)\<close> with the empty pieces removed. One of the three branches
  matches at every position of the text, so the pieces between two matches are all
  empty and the chunks are the successive matches.
\<close>

function wordsep_split :: "ucd \<Rightarrow> ustring \<Rightarrow> ustring \<Rightarrow> ustring list" where
  "wordsep_split U seen [] = []"
| "wordsep_split U seen (c # cs) =
     (if is_whitespace c then
        takeWhile is_whitespace (c # cs)
          # wordsep_split U (rev (takeWhile is_whitespace (c # cs)) @ seen)
              (dropWhile is_whitespace (c # cs))
      else if (case seen of [] \<Rightarrow> False | p # _ \<Rightarrow> is_word_punct U p) \<and> emdash_ahead U (c # cs) then
        takeWhile (\<lambda>x. x = 45) (c # cs)
          # wordsep_split U (rev (takeWhile (\<lambda>x. x = 45) (c # cs)) @ seen)
              (dropWhile (\<lambda>x. x = 45) (c # cs))
      else
        fst (word_end U (c # seen) [c] cs)
          # wordsep_split U (rev (fst (word_end U (c # seen) [c] cs)) @ seen)
              (snd (word_end U (c # seen) [c] cs)))"
  by pat_completeness auto
termination
proof (relation "measure (\<lambda>(U, seen, s). length s)")
  show "wf (measure (\<lambda>(U, seen, s). length s))" by simp
next
  fix U :: ucd and seen :: ustring and c cs
  assume "is_whitespace c"
  then show "((U, rev (takeWhile is_whitespace (c # cs)) @ seen, dropWhile is_whitespace (c # cs)),
              (U, seen, c # cs)) \<in> measure (\<lambda>(U, seen, s). length s)"
    by (simp add: less_Suc_eq_le length_dropWhile_le)
next
  fix U :: ucd and seen :: ustring and c cs
  assume "\<not> is_whitespace c"
    and "(case seen of [] \<Rightarrow> False | p # _ \<Rightarrow> is_word_punct U p) \<and> emdash_ahead U (c # cs)"
  then have "c = 45"
    by (cases "c = 45") (simp_all add: emdash_ahead_def)
  then show "((U, rev (takeWhile (\<lambda>x. x = 45) (c # cs)) @ seen,
               dropWhile (\<lambda>x. x = 45) (c # cs)), (U, seen, c # cs))
             \<in> measure (\<lambda>(U, seen, s). length s)"
    by (simp add: less_Suc_eq_le length_dropWhile_le)
next
  fix U :: ucd and seen :: ustring and c cs
  show "((U, rev (fst (word_end U (c # seen) [c] cs)) @ seen, snd (word_end U (c # seen) [c] cs)),
         (U, seen, c # cs)) \<in> measure (\<lambda>(U, seen, s). length s)"
    using word_end_length [of U "c # seen" "[c]" cs] by simp
qed

definition split_chunks :: "ucd \<Rightarrow> ustring \<Rightarrow> ustring list" where
  "split_chunks U text = wordsep_split U [] (munge_whitespace text)"

subsection \<open>Wrapping the chunks\<close>

text \<open>
  The exceptions that the modelled operations raise. Each is a subclass of Python's
  \<^verbatim>\<open>Exception\<close>; \<^verbatim>\<open>UnicodeEncodeError\<close> is what \<^verbatim>\<open>print\<close> raises on a text that the
  standard output cannot encode.
\<close>

datatype exn = ValueError | OSError | FileNotFoundError | UnidentifiedImageError | UnicodeEncodeError

text \<open>
  The inner loop of \<^verbatim>\<open>_wrap_chunks\<close>: chunks move to the current line while they fit.
  The chunk stack is kept in reading order, its head being \<^verbatim>\<open>chunks[-1]\<close> of the
  reversed list of the source.
\<close>

fun fill_line ::
  "nat \<Rightarrow> ustring list \<Rightarrow> nat \<Rightarrow> ustring list \<Rightarrow> ustring list \<times> nat \<times> ustring list" where
  "fill_line width cur_line cur_len [] = (cur_line, cur_len, [])"
| "fill_line width cur_line cur_len (c # chunks) =
     (if cur_len + length c \<le> width
      then fill_line width (cur_line @ [c]) (cur_len + length c) chunks
      else (cur_line, cur_len, c # chunks))"

text \<open>
  \<^verbatim>\<open>_handle_long_word\<close> with \<^verbatim>\<open>break_long_words\<close> and \<^verbatim>\<open>break_on_hyphens\<close> set:
  the head chunk is cut where the line is full, or after its last hyphen in front of that
  point when other characters precede the hyphen.
\<close>

definition handle_long_word ::
  "nat \<Rightarrow> ustring list \<Rightarrow> nat \<Rightarrow> ustring \<Rightarrow> ustring list \<Rightarrow> ustring list \<times> ustring list" where
  "handle_long_word width cur_line cur_len chunk rest =
     (let space_left = (if width < 1 then 1 else int width - int cur_len);
          hyphen = rfind chunk 45 space_left;
          stop = (if space_left < int (length chunk) \<and> 0 < hyphen \<and>
                     (\<exists>c \<in> set (py_take hyphen chunk). c \<noteq> 45)
                  then hyphen + 1 else space_left)
      in (cur_line @ [py_take stop chunk], py_drop stop chunk # rest))"

text \<open>
  One pass of the outer loop of \<^verbatim>\<open>_wrap_chunks\<close>, which runs while chunks remain:
  it returns the current line as a list of chunks, and the chunks left. \<open>started\<close> says
  whether \<^verbatim>\<open>lines\<close> is non-empty.
\<close>

fun line_step :: "ucd \<Rightarrow> nat \<Rightarrow> bool \<Rightarrow> ustring list \<Rightarrow> ustring list \<times> ustring list" where
  "line_step U width started [] = ([], [])"
| "line_step U width started (c # cs) =
     (let chunks1 = (if strip U c = [] \<and> started then cs else c # cs);
          (cur_line, cur_len, chunks2) = fill_line width [] 0 chunks1;
          (cur_line2, chunks3) =
            (case chunks2 of
               [] \<Rightarrow> (cur_line, chunks2)
             | d # ds \<Rightarrow>
                 if width < length d then handle_long_word width cur_line cur_len d ds
                 else (cur_line, chunks2));
          cur_line3 = (if cur_line2 \<noteq> [] \<and> strip U (last cur_line2) = []
                       then butlast cur_line2 else cur_line2)
      in (cur_line3, chunks3))"

text \<open>The outer loop ends: every pass removes a chunk or shortens one.\<close>

definition weight :: "ustring list \<Rightarrow> nat" where
  "weight chunks = length (concat chunks) + length chunks"

lemma weight_Cons [simp]: "weight (c # cs) = Suc (length c + weight cs)"
  by (simp add: weight_def)

lemma weight_Nil [simp]: "weight [] = 0"
  by (simp add: weight_def)

lemma fill_line_weight:
  "fill_line width cur_line cur_len chunks = (cl, n, rest) \<Longrightarrow> weight rest \<le> weight chunks"
proof (induction chunks arbitrary: cur_line cur_len)
  case Nil
  then show ?case by simp
next
  case (Cons c chunks)
  show ?case
  proof (cases "cur_len + length c \<le> width")
    case True
    with Cons.prems have "fill_line width (cur_line @ [c]) (cur_len + length c) chunks = (cl, n, rest)"
      by simp
    from Cons.IH [OF this] show ?thesis by simp
  next
    case False
    with Cons.prems show ?thesis by auto
  qed
qed

lemma fill_line_stuck:
  "fill_line width cur_line cur_len chunks = (cl, n, rest) \<Longrightarrow> weight chunks \<le> weight rest \<Longrightarrow>
     rest = chunks \<and> n = cur_len \<and> (case chunks of [] \<Rightarrow> True | c # _ \<Rightarrow> width < cur_len + length c)"
proof (induction chunks arbitrary: cur_line cur_len)
  case Nil
  then show ?case by simp
next
  case (Cons c chunks)
  show ?case
  proof (cases "cur_len + length c \<le> width")
    case True
    with Cons.prems have "fill_line width (cur_line @ [c]) (cur_len + length c) chunks = (cl, n, rest)"
      by simp
    from fill_line_weight [OF this] Cons.prems(2) show ?thesis by simp
  next
    case False
    with Cons.prems show ?thesis by auto
  qed
qed

lemma py_drop_length: "length (py_drop e s) \<le> length s"
  by (simp add: py_drop_def)

lemma py_drop_less: "0 < e \<Longrightarrow> s \<noteq> [] \<Longrightarrow> length (py_drop e s) < length s"
  by (simp add: py_drop_def)

lemma handle_long_word_weight:
  "weight (snd (handle_long_word width cur_line cur_len d ds)) \<le> weight (d # ds)"
  by (simp add: handle_long_word_def Let_def py_drop_length)

lemma handle_long_word_weight_less:
  "width < length d \<Longrightarrow> weight (snd (handle_long_word width cur_line 0 d ds)) < weight (d # ds)"
proof -
  define space_left where "space_left = (if width < 1 then 1 else int width - int 0)"
  define hyphen where "hyphen = rfind d 45 space_left"
  define stop where "stop = (if space_left < int (length d) \<and> 0 < hyphen \<and>
                     (\<exists>c \<in> set (py_take hyphen d). c \<noteq> 45)
                  then hyphen + 1 else space_left)"
  assume big: "width < length d"
  have "0 < space_left" using big by (simp add: space_left_def)
  then have "0 < stop" by (simp add: stop_def)
  moreover have "d \<noteq> []" using big by auto
  ultimately have "length (py_drop stop d) < length d" by (rule py_drop_less)
  moreover have "snd (handle_long_word width cur_line 0 d ds) = py_drop stop d # ds"
    unfolding handle_long_word_def Let_def stop_def hyphen_def space_left_def by simp
  ultimately show ?thesis by simp
qed

lemma line_step_weight:
  assumes "chunks \<noteq> []"
  shows "weight (snd (line_step U width started chunks)) < weight chunks"
proof -
  from assms obtain c cs where chunks: "chunks = c # cs" by (cases chunks) auto
  define chunks1 where "chunks1 = (if strip U c = [] \<and> started then cs else c # cs)"
  obtain cl n chunks2 where fl: "fill_line width [] 0 chunks1 = (cl, n, chunks2)"
    by (cases "fill_line width [] 0 chunks1") auto
  define r where "r = (case chunks2 of [] \<Rightarrow> (cl, chunks2)
             | d # ds \<Rightarrow> if width < length d then handle_long_word width cl n d ds else (cl, chunks2))"
  have step: "snd (line_step U width started chunks) = snd r"
    using fl by (simp add: chunks chunks1_def r_def Let_def split: prod.splits)
  have le1: "weight chunks1 \<le> weight chunks" by (simp add: chunks chunks1_def)
  have le2: "weight chunks2 \<le> weight chunks1" using fill_line_weight [OF fl] .
  have le3: "weight (snd r) \<le> weight chunks2"
    using handle_long_word_weight by (auto simp: r_def split: list.splits)
  show ?thesis
  proof (cases "weight chunks1 < weight chunks \<or> weight chunks2 < weight chunks1")
    case True
    with le1 le2 le3 show ?thesis unfolding step by linarith
  next
    case False
    then have same: "chunks1 = chunks" and "weight chunks1 \<le> weight chunks2"
      by (auto simp: chunks chunks1_def split: if_splits)
    from fill_line_stuck [OF fl this(2)] have c2: "chunks2 = c # cs" and n: "n = 0" and big: "width < length c"
      by (simp_all add: same chunks)
    have "weight (snd r) < weight chunks"
      using handle_long_word_weight_less [OF big] by (simp add: r_def c2 big n chunks)
    then show ?thesis by (simp only: step)
  qed
qed

function wrap_lines :: "ucd \<Rightarrow> nat \<Rightarrow> ustring list \<Rightarrow> ustring list \<Rightarrow> ustring list" where
  "wrap_lines U width lines chunks =
     (if chunks = [] then lines
      else wrap_lines U width
             (if fst (line_step U width (lines \<noteq> []) chunks) \<noteq> []
              then lines @ [concat (fst (line_step U width (lines \<noteq> []) chunks))]
              else lines)
             (snd (line_step U width (lines \<noteq> []) chunks)))"
  by pat_completeness auto
termination
  by (relation "measure (\<lambda>(U, width, lines, chunks). weight chunks)") (simp_all add: line_step_weight)

declare wrap_lines.simps [simp del]

text \<open>\<^verbatim>\<open>_wrap_chunks\<close> refuses a width below 1 before it looks at the chunks.\<close>

definition wrap_chunks :: "ucd \<Rightarrow> int \<Rightarrow> ustring list \<Rightarrow> exn + ustring list" where
  "wrap_chunks U width chunks =
     (if width \<le> 0 then Inl ValueError else Inr (wrap_lines U (nat width) [] chunks))"

definition wrap :: "ucd \<Rightarrow> ustring \<Rightarrow> int \<Rightarrow> exn + ustring list" where
  "wrap U text width = wrap_chunks U width (split_chunks U text)"



section \<open>Files, fonts and images\<close>

text \<open>
  The compositor reads font files and a background image, measures and draws text with
  the imaging library (Pillow), and writes one image file. The file system is a map from
  paths to files. An image is its mode, its size and its pixel content; the content is
  kept as the sequence of operations that produced it, so that two images with the same
  content term have the same pixels.
\<close>

type_synonym path = string

record font =
  typeface :: nat
  font_size :: int

datatype colour = Name string | RGBA int int int int

type_synonym box = "rat \<times> rat \<times> rat \<times> rat"

datatype raster =
    Fill colour
  | Stored nat
  | Convert string raster
  | Rectangle raster box colour
  | Text raster "rat \<times> rat" ustring font colour string
  | AlphaComposite raster raster

record image =
  im_mode :: string
  im_size :: "int \<times> int"
  im_pixels :: raster

datatype fsobject = FontFile nat | ImageFile image | OtherFile

record world =
  files :: "path \<rightharpoonup> fsobject"
  writable :: "path \<Rightarrow> bool"

text \<open>
  What a render call takes from its installation: the path of the compositor module
  (\<^verbatim>\<open>__file__\<close>), the Unicode tables of the interpreter, and the text measurements of
  the imaging library, which depend on the font data and are parameters here.
  \<open>textbbox\<close> is \<^verbatim>\<open>draw.textbbox((0, 0), line, font)\<close>.
\<close>

record env =
  module_file :: path
  unicode :: ucd
  textlength :: "font \<Rightarrow> ustring \<Rightarrow> rat"
  textbbox :: "font \<Rightarrow> ustring \<Rightarrow> int \<times> int \<times> int \<times> int"
  multiline_textbbox :: "font \<Rightarrow> int \<times> int \<Rightarrow> ustring \<Rightarrow> int \<times> int \<times> int \<times> int"

subsection \<open>Paths\<close>

text \<open>\<^verbatim>\<open>os.path.join(a, b)\<close> and \<^verbatim>\<open>os.path.dirname(p)\<close> of \<^verbatim>\<open>posixpath\<close>.\<close>

definition os_path_join :: "path \<Rightarrow> path \<Rightarrow> path" where
  "os_path_join a b =
     (if b \<noteq> [] \<and> hd b = CHR ''/'' then b
      else if a = [] \<or> last a = CHR ''/'' then a @ b
      else a @ ''/'' @ b)"

definition os_path_dirname :: "path \<Rightarrow> path" where
  "os_path_dirname p =
     (let head = py_take (rfind p CHR ''/'' (int (length p)) + 1) p
      in if head \<noteq> [] \<and> head \<noteq> replicate (length head) CHR ''/''
         then rev (dropWhile (\<lambda>c. c = CHR ''/'') (rev head)) else head)"

definition os_path_exists :: "world \<Rightarrow> path \<Rightarrow> bool" where
  "os_path_exists w p = (files w p \<noteq> None)"

subsection \<open>The imaging library\<close>

definition truetype :: "world \<Rightarrow> path \<Rightarrow> int \<Rightarrow> exn + font" where
  "truetype w p sz =
     (case files w p of
        Some (FontFile t) \<Rightarrow> Inr \<lparr>typeface = t, font_size = sz\<rparr>
      | _ \<Rightarrow> Inl OSError)"

definition image_open :: "world \<Rightarrow> path \<Rightarrow> exn + image" where
  "image_open w p =
     (case files w p of
        None \<Rightarrow> Inl FileNotFoundError
      | Some (ImageFile im) \<Rightarrow> Inr im
      | Some _ \<Rightarrow> Inl UnidentifiedImageError)"

definition image_new :: "string \<Rightarrow> int \<times> int \<Rightarrow> colour \<Rightarrow> image" where
  "image_new m sz c = \<lparr>im_mode = m, im_size = sz, im_pixels = Fill c\<rparr>"

definition convert :: "string \<Rightarrow> image \<Rightarrow> image" where
  "convert m im = im\<lparr>im_mode := m, im_pixels := Convert m (im_pixels im)\<rparr>"

text \<open>
  Drawing changes the image in place; here it returns the changed image. The drawing
  calls do not raise in the model: the library's refusal of a rectangle whose second
  corner lies above or left of its first needs a negative measured width or height.
\<close>

definition draw_rectangle :: "image \<Rightarrow> box \<Rightarrow> colour \<Rightarrow> image" where
  "draw_rectangle im b fill = im\<lparr>im_pixels := Rectangle (im_pixels im) b fill\<rparr>"

definition draw_text :: "image \<Rightarrow> rat \<times> rat \<Rightarrow> ustring \<Rightarrow> font \<Rightarrow> colour \<Rightarrow> string \<Rightarrow> image" where
  "draw_text im xy s f fill anchor = im\<lparr>im_pixels := Text (im_pixels im) xy s f fill anchor\<rparr>"

definition alpha_composite :: "image \<Rightarrow> image \<Rightarrow> exn + image" where
  "alpha_composite im1 im2 =
     (if im_mode im1 \<noteq> ''RGBA'' \<or> im_mode im2 \<noteq> ''RGBA'' \<or> im_size im1 \<noteq> im_size im2
      then Inl ValueError
      else Inr (im1\<lparr>im_pixels := AlphaComposite (im_pixels im1) (im_pixels im2)\<rparr>))"

text \<open>
  \<^verbatim>\<open>im.save(path)\<close> writes the file or raises. What a failed write leaves at the path is
  outside the model (the file system is returned as it was).
\<close>

definition save :: "world \<Rightarrow> image \<Rightarrow> path \<Rightarrow> (exn + unit) \<times> world" where
  "save w im p =
     (if writable w p then (Inr (), w\<lparr>files := (files w)(p \<mapsto> ImageFile im)\<rparr>)
      else (Inl OSError, w))"

text \<open>
  Both entry points run inside \<^verbatim>\<open>try: ... except Exception as e: ... return False\<close>.
  The handler catches the subclasses of \<^verbatim>\<open>Exception\<close>. In this section and the next the
  compositor runs on a standard output that encodes every character it is given, so
  that each \<^verbatim>\<open>print\<close> returns and leaves the result and the files as they are; the
  \<^verbatim>\<open>print\<close> calls themselves, and a standard output that refuses characters, are the
  subject of the section on the diagnostics.
\<close>

fun is_Exception :: "exn \<Rightarrow> bool" where
  "is_Exception ValueError = True"
| "is_Exception OSError = True"
| "is_Exception FileNotFoundError = True"
| "is_Exception UnidentifiedImageError = True"
| "is_Exception UnicodeEncodeError = True"

definition except_Exception :: "(exn + bool) \<times> world \<Rightarrow> (exn + bool) \<times> world" where
  "except_Exception r =
     (case r of
        (Inl e, w) \<Rightarrow> if is_Exception e then (Inr False, w) else (Inl e, w)
      | (Inr b, w) \<Rightarrow> (Inr b, w))"

section \<open>The compositor\<close>

subsection \<open>\<^verbatim>\<open>_find_font_file\<close>\<close>

definition project_font_dir :: "env \<Rightarrow> path" where
  "project_font_dir E =
     os_path_join (os_path_join (os_path_join (os_path_dirname (module_file E)) ''..'') ''..'') ''fonts''"

fun find_font_in :: "world \<Rightarrow> path \<Rightarrow> string list \<Rightarrow> path option" where
  "find_font_in w dir [] = None"
| "find_font_in w dir (font_name # font_names) =
     (let font_path = os_path_join dir font_name
      in if os_path_exists w font_path then Some font_path else find_font_in w dir font_names)"

definition find_font_file :: "env \<Rightarrow> world \<Rightarrow> string list \<Rightarrow> path option" where
  "find_font_file E w font_names = find_font_in w (project_font_dir E) font_names"

subsection \<open>Wrap width and layout\<close>

text \<open>
  The wrap width, written three times in the source as
  \<^verbatim>\<open>int(usable / avg_char_width) if avg_char_width > 0 else fallback\<close>.
\<close>

definition chars_per_line :: "int \<Rightarrow> rat \<Rightarrow> int \<Rightarrow> int" where
  "chars_per_line usable avg_char_width fallback =
     (if 0 < avg_char_width then py_int (of_int usable / avg_char_width) else fallback)"

definition headline_margin :: int where
  "headline_margin = py_int (of_int 1024 * 0.1)"

definition wrap_at_char_count :: "env \<Rightarrow> font \<Rightarrow> int" where
  "wrap_at_char_count E main_font =
     chars_per_line (1024 - 2 * headline_margin) (textlength E main_font (ustr ''A'')) 20"

definition overlay_margin :: "int \<Rightarrow> int" where
  "overlay_margin img_width = py_int (of_int img_width * 0.08)"

definition max_text_width_pixels :: "int \<Rightarrow> int" where
  "max_text_width_pixels img_width = img_width - 2 * overlay_margin img_width"

definition wrap_title_at :: "env \<Rightarrow> font \<Rightarrow> int \<Rightarrow> int" where
  "wrap_title_at E title_font img_width =
     chars_per_line (max_text_width_pixels img_width) (textlength E title_font (ustr ''a'')) 30"

definition wrap_exp_at :: "env \<Rightarrow> font \<Rightarrow> int \<Rightarrow> int" where
  "wrap_exp_at E explanation_font img_width =
     chars_per_line (max_text_width_pixels img_width) (textlength E explanation_font (ustr ''a'')) 50"

definition title_spacing :: int where
  "title_spacing = py_int (80 * 0.2)"

definition exp_spacing :: int where
  "exp_spacing = py_int (45 * 0.2)"

definition space_between_blocks :: int where
  "space_between_blocks = 60"

definition padding :: int where
  "padding = 30"

text \<open>\<^verbatim>\<open>bbox[3] - bbox[1]\<close> of a line measured at the origin.\<close>

definition line_height :: "env \<Rightarrow> font \<Rightarrow> ustring \<Rightarrow> int" where
  "line_height E f line = (case textbbox E f line of (x0, y0, x1, y1) \<Rightarrow> y1 - y0)"

text \<open>
  The loop \<^verbatim>\<open>for line in lines: total_height += (bbox[3] - bbox[1]) + spacing\<close>.
\<close>

fun add_heights :: "env \<Rightarrow> font \<Rightarrow> int \<Rightarrow> int \<Rightarrow> ustring list \<Rightarrow> int" where
  "add_heights E f spacing total_h [] = total_h"
| "add_heights E f spacing total_h (line # lines) =
     add_heights E f spacing (total_h + (line_height E f line + spacing)) lines"

definition total_height :: "env \<Rightarrow> font \<Rightarrow> font \<Rightarrow> ustring list \<Rightarrow> ustring list \<Rightarrow> int" where
  "total_height E title_font explanation_font wrapped_title wrapped_explanation =
     add_heights E explanation_font exp_spacing
       (add_heights E title_font title_spacing (- title_spacing) wrapped_title
          + space_between_blocks)
       wrapped_explanation"

text \<open>
  \<^verbatim>\<open>max(widths) if (wrapped_title or wrapped_explanation) else 0\<close>: the list of widths
  is empty exactly when both blocks are.
\<close>

definition max_line_width :: "env \<Rightarrow> font \<Rightarrow> font \<Rightarrow> ustring list \<Rightarrow> ustring list \<Rightarrow> rat" where
  "max_line_width E title_font explanation_font wrapped_title wrapped_explanation =
     (case map (textlength E title_font) wrapped_title
             @ map (textlength E explanation_font) wrapped_explanation of
        [] \<Rightarrow> 0
      | x # xs \<Rightarrow> foldl max x xs)"

definition bg_bbox :: "int \<Rightarrow> rat \<Rightarrow> int \<Rightarrow> box" where
  "bg_bbox margin mlw th =
     (of_int (margin - padding), of_int (margin - padding),
      of_int margin + mlw + of_int padding, of_int (margin + th + padding))"

text \<open>
  The drawing loop of one block: each line is drawn at \<open>(margin, current_y)\<close> and
  \<open>current_y\<close> moves down by the line's height and the block's spacing.
\<close>

fun draw_lines ::
  "env \<Rightarrow> font \<Rightarrow> int \<Rightarrow> int \<Rightarrow> image \<Rightarrow> int \<Rightarrow> ustring list \<Rightarrow> image \<times> int" where
  "draw_lines E f spacing margin layer current_y [] = (layer, current_y)"
| "draw_lines E f spacing margin layer current_y (line # lines) =
     draw_lines E f spacing margin
       (draw_text layer (of_int margin, of_int current_y) line f (Name ''white'') ''la'')
       (current_y + (line_height E f line + spacing)) lines"

definition draw_overlay ::
  "env \<Rightarrow> font \<Rightarrow> font \<Rightarrow> int \<Rightarrow> ustring list \<Rightarrow> ustring list \<Rightarrow> image \<Rightarrow> image" where
  "draw_overlay E title_font explanation_font margin wrapped_title wrapped_explanation txt_layer =
     (let th = total_height E title_font explanation_font wrapped_title wrapped_explanation;
          mlw = max_line_width E title_font explanation_font wrapped_title wrapped_explanation;
          layer1 = draw_rectangle txt_layer (bg_bbox margin mlw th) (RGBA 0 0 0 153);
          (layer2, y2) = draw_lines E title_font title_spacing margin layer1 margin wrapped_title;
          y3 = y2 + space_between_blocks;
          (layer3, y4) = draw_lines E explanation_font exp_spacing margin layer2 y3 wrapped_explanation
      in layer3)"

subsection \<open>\<^verbatim>\<open>add_text_to_image\<close>\<close>

definition add_text_to_image_body ::
  "env \<Rightarrow> world \<Rightarrow> path \<Rightarrow> ustring \<Rightarrow> ustring \<Rightarrow> path \<Rightarrow> (exn + bool) \<times> world" where
  "add_text_to_image_body E w image_path slide_title slide_text output_path =
     (case image_open w image_path of
        Inl e \<Rightarrow> (Inl e, w)
      | Inr opened \<Rightarrow>
     (let img = convert ''RGBA'' opened;
          txt_layer = image_new ''RGBA'' (im_size img) (RGBA 255 255 255 0)
      in case (find_font_file E w [''Inter-Bold.ttf''], find_font_file E w [''Inter-Regular.ttf'']) of
        (Some title_font_path, Some explanation_font_path) \<Rightarrow>
          (case truetype w title_font_path 80 of
             Inl e \<Rightarrow> (Inl e, w)
           | Inr title_font \<Rightarrow>
          (case truetype w explanation_font_path 45 of
             Inl e \<Rightarrow> (Inl e, w)
           | Inr explanation_font \<Rightarrow>
          (let img_width = fst (im_size img);
               margin = overlay_margin img_width
           in case wrap (unicode E) slide_title (wrap_title_at E title_font img_width) of
             Inl e \<Rightarrow> (Inl e, w)
           | Inr wrapped_title \<Rightarrow>
          (case wrap (unicode E) slide_text (wrap_exp_at E explanation_font img_width) of
             Inl e \<Rightarrow> (Inl e, w)
           | Inr wrapped_explanation \<Rightarrow>
          (case alpha_composite img
                  (draw_overlay E title_font explanation_font margin
                     wrapped_title wrapped_explanation txt_layer) of
             Inl e \<Rightarrow> (Inl e, w)
           | Inr out \<Rightarrow>
          (case save w (convert ''RGB'' out) output_path of
             (Inl e, w') \<Rightarrow> (Inl e, w')
           | (Inr u, w') \<Rightarrow> (Inr True, w')))))))
      | _ \<Rightarrow> (Inr False, w)))"

definition add_text_to_image ::
  "env \<Rightarrow> world \<Rightarrow> path \<Rightarrow> ustring \<Rightarrow> ustring \<Rightarrow> path \<Rightarrow> (exn + bool) \<times> world" where
  "add_text_to_image E w image_path slide_title slide_text output_path =
     except_Exception (add_text_to_image_body E w image_path slide_title slide_text output_path)"

subsection \<open>\<^verbatim>\<open>create_branded_headline_slide\<close>\<close>

text \<open>\<^verbatim>\<open>sep.join(lines)\<close>.\<close>

fun str_join :: "'a list \<Rightarrow> 'a list list \<Rightarrow> 'a list" where
  "str_join sep [] = []"
| "str_join sep [x] = x"
| "str_join sep (x # y # ys) = x @ sep @ str_join sep (y # ys)"

definition create_branded_headline_slide_body ::
  "env \<Rightarrow> world \<Rightarrow> ustring \<Rightarrow> path \<Rightarrow> (exn + bool) \<times> world" where
  "create_branded_headline_slide_body E w headline_text output_path =
     (let width = 1024; height = 1024
      in case (find_font_file E w [''PlayfairDisplay-ExtraBold.ttf''],
               find_font_file E w [''Inter-Bold.ttf'']) of
        (Some main_font_path, Some tag_font_path) \<Rightarrow>
          (case truetype w main_font_path 80 of
             Inl e \<Rightarrow> (Inl e, w)
           | Inr main_font \<Rightarrow>
          (case truetype w tag_font_path 24 of
             Inl e \<Rightarrow> (Inl e, w)
           | Inr tag_font \<Rightarrow>
          (case truetype w tag_font_path 20 of
             Inl e \<Rightarrow> (Inl e, w)
           | Inr footer_font \<Rightarrow>
          (let img0 = image_new ''RGB'' (width, height) (Name ''#F8F9FA'');
               margin = headline_margin;
               img1 = draw_rectangle img0
                        (of_int margin, of_int margin, of_int (margin + 180), of_int (margin + 40))
                        (Name ''#D92D20'');
               img2 = draw_text img1 (of_int (margin + 90), of_int (margin + 20)) (ustr ''LATEST NEWS'')
                        tag_font (Name ''white'') ''mm''
           in case wrap (unicode E) headline_text (wrap_at_char_count E main_font) of
             Inl e \<Rightarrow> (Inl e, w)
           | Inr wrapped \<Rightarrow>
          (let wrapped_text = str_join [10] wrapped;
               text_height = (case multiline_textbbox E main_font (margin, 0) wrapped_text of
                                (x0, y0, x1, y1) \<Rightarrow> y1 - y0);
               text_y = of_int (height - text_height) / 2;
               img3 = draw_text img2 (of_int margin, text_y) wrapped_text main_font
                        (Name ''black'') ''la'';
               img4 = draw_text img3 (of_int (width - margin), of_int (height - margin))
                        (ustr ''Finance & Politics Brief'') footer_font (Name ''#6C757D'') ''rs''
           in case save w img4 output_path of
             (Inl e, w') \<Rightarrow> (Inl e, w')
           | (Inr u, w') \<Rightarrow> (Inr True, w'))))))
      | _ \<Rightarrow> (Inr False, w))"

definition create_branded_headline_slide ::
  "env \<Rightarrow> world \<Rightarrow> ustring \<Rightarrow> path \<Rightarrow> (exn + bool) \<times> world" where
  "create_branded_headline_slide E w headline_text output_path =
     except_Exception (create_branded_headline_slide_body E w headline_text output_path)"


section \<open>The diagnostics on standard output\<close>

text \<open>
  \<^verbatim>\<open>_find_font_file\<close> and both entry points report with \<^verbatim>\<open>print\<close>, and the handler of each
  entry point prints before it returns False. \<^verbatim>\<open>print(s)\<close> encodes \<open>s\<close> for \<^verbatim>\<open>sys.stdout\<close>; a
  stream with the default error handler (\<^verbatim>\<open>strict\<close>) raises \<^verbatim>\<open>UnicodeEncodeError\<close> at a
  character that its encoding cannot represent. A stream is given by the code points it
  encodes. The text \<^verbatim>\<open>str(e)\<close> of a caught exception and the text of a list of names in a
  formatted string are parameters. The definitions above are the compositor on a stream
  that encodes every character; the definitions of this section follow the same source
  lines with the \<^verbatim>\<open>print\<close> calls in place.
\<close>

record console =
  encodes :: "nat \<Rightarrow> bool"
  str_exn :: "exn \<Rightarrow> ustring"
  str_names :: "string list \<Rightarrow> ustring"

definition py_print :: "console \<Rightarrow> ustring \<Rightarrow> exn + unit" where
  "py_print stdout s = (if list_all (encodes stdout) s then Inr () else Inl UnicodeEncodeError)"

text \<open>
  \<^verbatim>\<open>_find_font_file\<close>: \<^verbatim>\<open>Font found: '...'\<close> for the candidate returned, the warning with
  the whole list of names when the loop ends. Code point 39 is the apostrophe.
\<close>

fun find_font_in_io ::
  "console \<Rightarrow> world \<Rightarrow> path \<Rightarrow> string list \<Rightarrow> string list \<Rightarrow> exn + path option" where
  "find_font_in_io stdout w dir names [] =
     (case py_print stdout
             (ustr ''Warning: Could not find any of the following fonts in the 'fonts' folder: ''
                @ str_names stdout names) of
        Inl e \<Rightarrow> Inl e
      | Inr u \<Rightarrow> Inr None)"
| "find_font_in_io stdout w dir names (font_name # font_names) =
     (let font_path = os_path_join dir font_name
      in if os_path_exists w font_path
         then (case py_print stdout (ustr ''Font found: '' @ [39] @ ustr font_path @ [39]) of
                 Inl e \<Rightarrow> Inl e
               | Inr u \<Rightarrow> Inr (Some font_path))
         else find_font_in_io stdout w dir names font_names)"

definition find_font_file_io :: "console \<Rightarrow> env \<Rightarrow> world \<Rightarrow> string list \<Rightarrow> exn + path option" where
  "find_font_file_io stdout E w font_names =
     find_font_in_io stdout w (project_font_dir E) font_names font_names"

text \<open>
  The handler \<^verbatim>\<open>except Exception as e: print(f"... {e}"); return False\<close>. An exception
  raised by the \<^verbatim>\<open>print\<close> of the handler leaves the function.
\<close>

definition except_Exception_io ::
  "console \<Rightarrow> ustring \<Rightarrow> (exn + bool) \<times> world \<Rightarrow> (exn + bool) \<times> world" where
  "except_Exception_io stdout diagnostic r =
     (case r of
        (Inl e, w) \<Rightarrow>
          if is_Exception e
          then (case py_print stdout (diagnostic @ str_exn stdout e) of
                  Inl e' \<Rightarrow> (Inl e', w)
                | Inr u \<Rightarrow> (Inr False, w))
          else (Inl e, w)
      | (Inr b, w) \<Rightarrow> (Inr b, w))"

text \<open>
  The marks that open the diagnostics: U+274C (cross mark, 10060) on a failure and U+2705
  (check mark, 9989) on success.
\<close>

definition cross_mark :: nat where
  "cross_mark = 10060"

definition check_mark :: nat where
  "check_mark = 9989"

definition add_text_to_image_body_io ::
  "console \<Rightarrow> env \<Rightarrow> world \<Rightarrow> path \<Rightarrow> ustring \<Rightarrow> ustring \<Rightarrow> path \<Rightarrow> (exn + bool) \<times> world" where
  "add_text_to_image_body_io stdout E w image_path slide_title slide_text output_path =
     (case image_open w image_path of
        Inl e \<Rightarrow> (Inl e, w)
      | Inr opened \<Rightarrow>
     (let img = convert ''RGBA'' opened;
          txt_layer = image_new ''RGBA'' (im_size img) (RGBA 255 255 255 0)
      in case find_font_file_io stdout E w [''Inter-Bold.ttf''] of
        Inl e \<Rightarrow> (Inl e, w)
      | Inr title_font_opt \<Rightarrow>
     (case find_font_file_io stdout E w [''Inter-Regular.ttf''] of
        Inl e \<Rightarrow> (Inl e, w)
      | Inr explanation_font_opt \<Rightarrow>
     (case (title_font_opt, explanation_font_opt) of
        (Some title_font_path, Some explanation_font_path) \<Rightarrow>
          (case truetype w title_font_path 80 of
             Inl e \<Rightarrow> (Inl e, w)
           | Inr title_font \<Rightarrow>
          (case truetype w explanation_font_path 45 of
             Inl e \<Rightarrow> (Inl e, w)
           | Inr explanation_font \<Rightarrow>
          (let img_width = fst (im_size img);
               margin = overlay_margin img_width
           in case wrap (unicode E) slide_title (wrap_title_at E title_font img_width) of
             Inl e \<Rightarrow> (Inl e, w)
           | Inr wrapped_title \<Rightarrow>
          (case wrap (unicode E) slide_text (wrap_exp_at E explanation_font img_width) of
             Inl e \<Rightarrow> (Inl e, w)
           | Inr wrapped_explanation \<Rightarrow>
          (case alpha_composite img
                  (draw_overlay E title_font explanation_font margin
                     wrapped_title wrapped_explanation txt_layer) of
             Inl e \<Rightarrow> (Inl e, w)
           | Inr out \<Rightarrow>
          (case save w (convert ''RGB'' out) output_path of
             (Inl e, w') \<Rightarrow> (Inl e, w')
           | (Inr u, w') \<Rightarrow>
          (case py_print stdout
                  (check_mark # ustr '' Image with title and explanation saved to ''
                     @ [39] @ ustr output_path @ [39]) of
             Inl e \<Rightarrow> (Inl e, w')
           | Inr u \<Rightarrow> (Inr True, w'))))))))
      | _ \<Rightarrow>
          (case py_print stdout
                  (cross_mark # ustr '' Error: Inter-Bold.ttf or Inter-Regular.ttf not found in 'fonts' directory.'') of
             Inl e \<Rightarrow> (Inl e, w)
           | Inr u \<Rightarrow> (Inr False, w))))))"

definition add_text_to_image_io ::
  "console \<Rightarrow> env \<Rightarrow> world \<Rightarrow> path \<Rightarrow> ustring \<Rightarrow> ustring \<Rightarrow> path \<Rightarrow> (exn + bool) \<times> world" where
  "add_text_to_image_io stdout E w image_path slide_title slide_text output_path =
     except_Exception_io stdout
       (cross_mark # ustr '' An unexpected error occurred in the compositor: '')
       (add_text_to_image_body_io stdout E w image_path slide_title slide_text output_path)"

definition create_branded_headline_slide_body_io ::
  "console \<Rightarrow> env \<Rightarrow> world \<Rightarrow> ustring \<Rightarrow> path \<Rightarrow> (exn + bool) \<times> world" where
  "create_branded_headline_slide_body_io stdout E w headline_text output_path =
     (let width = 1024; height = 1024
      in case find_font_file_io stdout E w [''PlayfairDisplay-ExtraBold.ttf''] of
        Inl e \<Rightarrow> (Inl e, w)
      | Inr main_font_opt \<Rightarrow>
     (case find_font_file_io stdout E w [''Inter-Bold.ttf''] of
        Inl e \<Rightarrow> (Inl e, w)
      | Inr tag_font_opt \<Rightarrow>
     (case (main_font_opt, tag_font_opt) of
        (Some main_font_path, Some tag_font_path) \<Rightarrow>
          (case truetype w main_font_path 80 of
             Inl e \<Rightarrow> (Inl e, w)
           | Inr main_font \<Rightarrow>
          (case truetype w tag_font_path 24 of
             Inl e \<Rightarrow> (Inl e, w)
           | Inr tag_font \<Rightarrow>
          (case truetype w tag_font_path 20 of
             Inl e \<Rightarrow> (Inl e, w)
           | Inr footer_font \<Rightarrow>
          (let img0 = image_new ''RGB'' (width, height) (Name ''#F8F9FA'');
               margin = headline_margin;
               img1 = draw_rectangle img0
                        (of_int margin, of_int margin, of_int (margin + 180), of_int (margin + 40))
                        (Name ''#D92D20'');
               img2 = draw_text img1 (of_int (margin + 90), of_int (margin + 20)) (ustr ''LATEST NEWS'')
                        tag_font (Name ''white'') ''mm''
           in case wrap (unicode E) headline_text (wrap_at_char_count E main_font) of
             Inl e \<Rightarrow> (Inl e, w)
           | Inr wrapped \<Rightarrow>
          (let wrapped_text = str_join [10] wrapped;
               text_height = (case multiline_textbbox E main_font (margin, 0) wrapped_text of
                                (x0, y0, x1, y1) \<Rightarrow> y1 - y0);
               text_y = of_int (height - text_height) / 2;
               img3 = draw_text img2 (of_int margin, text_y) wrapped_text main_font
                        (Name ''black'') ''la'';
               img4 = draw_text img3 (of_int (width - margin), of_int (height - margin))
                        (ustr ''Finance & Politics Brief'') footer_font (Name ''#6C757D'') ''rs''
           in case save w img4 output_path of
             (Inl e, w') \<Rightarrow> (Inl e, w')
           | (Inr u, w') \<Rightarrow>
          (case py_print stdout
                  (check_mark # ustr '' Branded headline slide saved to '' @ [39] @ ustr output_path @ [39]) of
             Inl e \<Rightarrow> (Inl e, w')
           | Inr u \<Rightarrow> (Inr True, w')))))))
      | _ \<Rightarrow>
          (case py_print stdout
                  (cross_mark # ustr '' Error: Headline or Tag font not found in 'fonts' directory.'') of
             Inl e \<Rightarrow> (Inl e, w)
           | Inr u \<Rightarrow> (Inr False, w)))))"

definition create_branded_headline_slide_io ::
  "console \<Rightarrow> env \<Rightarrow> world \<Rightarrow> ustring \<Rightarrow> path \<Rightarrow> (exn + bool) \<times> world" where
  "create_branded_headline_slide_io stdout E w headline_text output_path =
     except_Exception_io stdout
       (cross_mark # ustr '' An unexpected error occurred while creating branded slide: '')
       (create_branded_headline_slide_body_io stdout E w headline_text output_path)"

section \<open>Vocabulary of the statements\<close>

text \<open>A chunk that \<^verbatim>\<open>_wrap_chunks\<close> may drop: \<^verbatim>\<open>chunk.strip() == ''\<close>.\<close>

definition blank :: "ucd \<Rightarrow> ustring \<Rightarrow> bool" where
  "blank U c = (strip U c = [])"

text \<open>
  The height of a block as the specification words it (section 4.3, d): the sum of the
  line heights plus the inter-line spacing between consecutive lines; an empty block has
  height 0.
\<close>

definition spec_block_height :: "env \<Rightarrow> font \<Rightarrow> int \<Rightarrow> ustring list \<Rightarrow> int" where
  "spec_block_height E f spacing lines =
     (if lines = [] then 0
      else sum_list (map (line_height E f) lines) + spacing * (int (length lines) - 1))"

text \<open>The texts and the rectangles drawn on a raster, in drawing order.\<close>

fun texts_of :: "raster \<Rightarrow> ((rat \<times> rat) \<times> ustring \<times> font) list" where
  "texts_of (Fill c) = []"
| "texts_of (Stored k) = []"
| "texts_of (Convert m r) = texts_of r"
| "texts_of (Rectangle r b c) = texts_of r"
| "texts_of (Text r xy s f c a) = texts_of r @ [(xy, s, f)]"
| "texts_of (AlphaComposite r1 r2) = texts_of r1 @ texts_of r2"

fun rectangles_of :: "raster \<Rightarrow> box list" where
  "rectangles_of (Fill c) = []"
| "rectangles_of (Stored k) = []"
| "rectangles_of (Convert m r) = rectangles_of r"
| "rectangles_of (Rectangle r b c) = rectangles_of r @ [b]"
| "rectangles_of (Text r xy s f c a) = rectangles_of r"
| "rectangles_of (AlphaComposite r1 r2) = rectangles_of r1 @ rectangles_of r2"

text \<open>
  The exact bounding box of a line drawn at \<open>xy\<close>, \<^verbatim>\<open>draw.textbbox(xy, line, font)\<close>: the
  box measured at the origin, moved by \<open>xy\<close>.
\<close>

definition ink_box :: "env \<Rightarrow> (rat \<times> rat) \<times> ustring \<times> font \<Rightarrow> box" where
  "ink_box E t =
     (case t of (xy, s, f) \<Rightarrow>
        (case textbbox E f s of (x0, y0, x1, y1) \<Rightarrow>
           (fst xy + of_int x0, snd xy + of_int y0, fst xy + of_int x1, snd xy + of_int y1)))"

definition box_inside :: "box \<Rightarrow> box \<Rightarrow> bool" where
  "box_inside inner outer =
     (case inner of (a0, b0, a1, b1) \<Rightarrow>
        (case outer of (x0, y0, x1, y1) \<Rightarrow> x0 \<le> a0 \<and> y0 \<le> b0 \<and> a1 \<le> x1 \<and> b1 \<le> y1))"

definition box_height :: "box \<Rightarrow> rat" where
  "box_height b = (case b of (x0, y0, x1, y1) \<Rightarrow> y1 - y0)"

text \<open>The positions at which \<open>draw_lines\<close> draws the lines of a block.\<close>

fun placed :: "env \<Rightarrow> font \<Rightarrow> int \<Rightarrow> int \<Rightarrow> int \<Rightarrow> ustring list \<Rightarrow> ((rat \<times> rat) \<times> ustring \<times> font) list" where
  "placed E f spacing margin current_y [] = []"
| "placed E f spacing margin current_y (line # lines) =
     ((of_int margin, of_int current_y), line, f)
       # placed E f spacing margin (current_y + (line_height E f line + spacing)) lines"

text \<open>The image that a successful \<^verbatim>\<open>add_text_to_image\<close> saves.\<close>

definition rendered_overlay ::
  "env \<Rightarrow> image \<Rightarrow> font \<Rightarrow> font \<Rightarrow> ustring list \<Rightarrow> ustring list \<Rightarrow> image" where
  "rendered_overlay E bg title_font explanation_font wrapped_title wrapped_explanation =
     \<lparr>im_mode = ''RGB'', im_size = im_size bg,
      im_pixels = Convert ''RGB''
        (AlphaComposite (Convert ''RGBA'' (im_pixels bg))
           (im_pixels (draw_overlay E title_font explanation_font
              (overlay_margin (fst (im_size bg))) wrapped_title wrapped_explanation
              (image_new ''RGBA'' (im_size bg) (RGBA 255 255 255 0)))))\<rparr>"

text \<open>The image that a successful \<^verbatim>\<open>create_branded_headline_slide\<close> saves.\<close>

definition rendered_headline :: "env \<Rightarrow> font \<Rightarrow> font \<Rightarrow> font \<Rightarrow> ustring list \<Rightarrow> image" where
  "rendered_headline E main_font tag_font footer_font wrapped =
     (let margin = headline_margin;
          wrapped_text = str_join [10] wrapped;
          text_height = (case multiline_textbbox E main_font (margin, 0) wrapped_text of
                           (x0, y0, x1, y1) \<Rightarrow> y1 - y0);
          text_y = of_int (1024 - text_height) / 2
      in \<lparr>im_mode = ''RGB'', im_size = (1024, 1024),
          im_pixels =
            Text
              (Text
                 (Text
                    (Rectangle (Fill (Name ''#F8F9FA''))
                       (of_int margin, of_int margin, of_int (margin + 180), of_int (margin + 40))
                       (Name ''#D92D20''))
                    (of_int (margin + 90), of_int (margin + 20)) (ustr ''LATEST NEWS'') tag_font
                    (Name ''white'') ''mm'')
                 (of_int margin, text_y) wrapped_text main_font (Name ''black'') ''la'')
              (of_int (1024 - margin), of_int (1024 - margin)) (ustr ''Finance & Politics Brief'')
              footer_font (Name ''#6C757D'') ''rs''\<rparr>)"

subsection \<open>A sample installation\<close>

text \<open>
  Concrete inputs for the statements below: a module path, the Unicode tables below
  U+0100, text measurements of a font whose characters are half as wide as the point size
  (a line of full stops has ink only near the baseline), and a file system with the three
  fonts and two backgrounds.
\<close>

text \<open>
  \<^verbatim>\<open>str.isalnum\<close>, \<^verbatim>\<open>str.isdecimal\<close> and \<^verbatim>\<open>str.isspace\<close> of CPython 3.11 on the code points
  below 256 (ASCII and Latin-1); the sample texts use no others.
\<close>

definition example_unicode :: ucd where
  "example_unicode =
     \<lparr>uc_alnum = (\<lambda>c. (48 \<le> c \<and> c \<le> 57) \<or> (65 \<le> c \<and> c \<le> 90) \<or> (97 \<le> c \<and> c \<le> 122)
                       \<or> c \<in> set [170, 178, 179, 181, 185, 186, 188, 189, 190]
                       \<or> (192 \<le> c \<and> c \<le> 214) \<or> (216 \<le> c \<and> c \<le> 246)
                       \<or> (248 \<le> c \<and> c \<le> 255)),
      uc_decimal = (\<lambda>c. 48 \<le> c \<and> c \<le> 57),
      uc_space = (\<lambda>c. (9 \<le> c \<and> c \<le> 13) \<or> (28 \<le> c \<and> c \<le> 32) \<or> c = 133 \<or> c = 160)\<rparr>"

definition example_env :: env where
  "example_env =
     \<lparr>module_file = ''/app/src/image_compositor/compositor.py'',
      unicode = example_unicode,
      textlength = (\<lambda>f s. of_int (font_size f * int (length s)) / 2),
      textbbox = (\<lambda>f s.
         if list_all (\<lambda>c. c = 46) s
         then (0, font_size f * 4 div 5, font_size f * int (length s) div 2, font_size f * 9 div 10)
         else (0, font_size f div 5, font_size f * int (length s) div 2, font_size f)),
      multiline_textbbox = (\<lambda>f xy s.
         (fst xy, snd xy, fst xy + font_size f * int (length s) div 2,
          snd xy + font_size f * (1 + int (length (filter (\<lambda>c. c = 10) s)))))\<rparr>"

text \<open>A standard output that encodes ASCII only.\<close>

definition ascii_only :: "nat \<Rightarrow> bool" where
  "ascii_only c = (c < 128)"

definition example_fonts :: path where
  "example_fonts = ''/app/src/image_compositor/../../fonts''"

definition example_world :: world where
  "example_world =
     \<lparr>files =
        [example_fonts @ ''/PlayfairDisplay-ExtraBold.ttf'' \<mapsto> FontFile 1,
         example_fonts @ ''/Inter-Bold.ttf'' \<mapsto> FontFile 2,
         example_fonts @ ''/Inter-Regular.ttf'' \<mapsto> FontFile 3,
         ''bg.png'' \<mapsto> ImageFile \<lparr>im_mode = ''RGB'', im_size = (1024, 1024), im_pixels = Stored 0\<rparr>,
         ''small.png'' \<mapsto> ImageFile \<lparr>im_mode = ''RGB'', im_size = (32, 32), im_pixels = Stored 1\<rparr>],
      writable = (\<lambda>p. True)\<rparr>"

section \<open>Font resolution\<close>

lemma find_font_in_filter:
  "find_font_in w dir font_names =
     (case filter (\<lambda>n. os_path_exists w (os_path_join dir n)) font_names of
        [] \<Rightarrow> None | n # _ \<Rightarrow> Some (os_path_join dir n))"
  by (induction font_names) (simp_all add: Let_def)

text \<open>
  C7. Font resolution searches one directory, computed from the path of the module
  (\<^verbatim>\<open>dirname(__file__)/../../fonts\<close>), and returns the path of the first candidate, in
  list order, that exists there; when no candidate exists it returns no path (Python's
  \<^verbatim>\<open>None\<close>), and no other directory or default font is tried.
\<close>

theorem find_font_file_first_existing:
  "find_font_file E w font_names =
     (case filter (\<lambda>n. os_path_exists w (os_path_join (project_font_dir E) n)) font_names of
        [] \<Rightarrow> None | n # _ \<Rightarrow> Some (os_path_join (project_font_dir E) n))
   \<and> project_font_dir E =
       os_path_join (os_path_join (os_path_join (os_path_dirname (module_file E)) ''..'') ''..'') ''fonts''"
proof
  show "find_font_file E w font_names =
     (case filter (\<lambda>n. os_path_exists w (os_path_join (project_font_dir E) n)) font_names of
        [] \<Rightarrow> None | n # _ \<Rightarrow> Some (os_path_join (project_font_dir E) n))"
    by (simp add: find_font_file_def find_font_in_filter)
next
  show "project_font_dir E =
       os_path_join (os_path_join (os_path_join (os_path_dirname (module_file E)) ''..'') ''..'') ''fonts''"
    by (simp add: project_font_dir_def)
qed

theorem find_font_file_first_existing_witness:
  "find_font_file example_env example_world [''Missing.ttf'', ''Inter-Regular.ttf'', ''Inter-Bold.ttf'']
     = Some ''/app/src/image_compositor/../../fonts/Inter-Regular.ttf''
   \<and> find_font_file example_env example_world [''Missing.ttf''] = None
   \<and> project_font_dir example_env = ''/app/src/image_compositor/../../fonts''"
proof -
  have a: "filter (\<lambda>n. os_path_exists example_world (os_path_join (project_font_dir example_env) n))
          [''Missing.ttf'', ''Inter-Regular.ttf'', ''Inter-Bold.ttf''] = [''Inter-Regular.ttf'', ''Inter-Bold.ttf'']"
    by code_simp
  have b: "filter (\<lambda>n. os_path_exists example_world (os_path_join (project_font_dir example_env) n))
          [''Missing.ttf''] = []"
    by code_simp
  have c: "os_path_join (os_path_join (os_path_join (os_path_dirname (module_file example_env)) ''..'') ''..'') ''fonts''
             = ''/app/src/image_compositor/../../fonts''"
    by code_simp
  have d: "os_path_join ''/app/src/image_compositor/../../fonts'' ''Inter-Regular.ttf''
             = ''/app/src/image_compositor/../../fonts/Inter-Regular.ttf''"
    by code_simp
  from find_font_file_first_existing [of example_env example_world
         "[''Missing.ttf'', ''Inter-Regular.ttf'', ''Inter-Bold.ttf'']"]
       find_font_file_first_existing [of example_env example_world "[''Missing.ttf'']"]
  show ?thesis unfolding a b by (simp only: c d list.case simp_thms)
qed

section \<open>Wrapping\<close>

lemma fill_line_append:
  "fill_line width cur_line cur_len chunks = (cl, n, rest) \<Longrightarrow> cl @ rest = cur_line @ chunks"
  by (induction chunks arbitrary: cur_line cur_len) (auto split: if_splits)

lemma fill_line_length:
  "fill_line width cur_line cur_len chunks = (cl, n, rest) \<Longrightarrow>
     cur_len = length (concat cur_line) \<Longrightarrow> cur_len \<le> width \<Longrightarrow>
     n = length (concat cl) \<and> n \<le> width"
proof (induction chunks arbitrary: cur_line cur_len)
  case Nil
  then show ?case by auto
next
  case (Cons c chunks)
  show ?case
  proof (cases "cur_len + length c \<le> width")
    case True
    with Cons.prems(1)
    have "fill_line width (cur_line @ [c]) (cur_len + length c) chunks = (cl, n, rest)"
      by simp
    moreover have "cur_len + length c = length (concat (cur_line @ [c]))"
      using Cons.prems(2) by simp
    ultimately show ?thesis using True by (rule Cons.IH)
  next
    case False
    with Cons.prems show ?thesis by auto
  qed
qed

lemma py_take_length: "0 \<le> e \<Longrightarrow> int (length (py_take e s)) \<le> e"
  by (simp add: py_take_def)

lemma rfind_less: "0 \<le> e \<Longrightarrow> rfind s c e < e"
proof -
  assume e: "0 \<le> e"
  have "int (length (py_take e s)) \<le> e" using e by (rule py_take_length)
  then show ?thesis by (simp add: rfind_def Let_def)
qed

lemma handle_long_word_fits:
  assumes "0 < width" and "n = length (concat cur_line)" and "n \<le> width"
  shows "length (concat (fst (handle_long_word width cur_line n d ds))) \<le> width"
proof -
  define space_left where "space_left = (if width < 1 then 1 else int width - int n)"
  define hyphen where "hyphen = rfind d 45 space_left"
  define stop where "stop = (if space_left < int (length d) \<and> 0 < hyphen \<and>
                     (\<exists>c \<in> set (py_take hyphen d). c \<noteq> 45)
                  then hyphen + 1 else space_left)"
  have sl: "space_left = int width - int n" and sl0: "0 \<le> space_left"
    using assms by (simp_all add: space_left_def)
  have "hyphen < space_left" unfolding hyphen_def using sl0 by (rule rfind_less)
  then have stop: "0 \<le> stop" "stop \<le> space_left"
    using sl0 by (simp_all add: stop_def)
  have "int (length (py_take stop d)) \<le> stop" using stop(1) by (rule py_take_length)
  then have piece: "int (length (py_take stop d)) \<le> int width - int n" using stop(2) sl by linarith
  have "fst (handle_long_word width cur_line n d ds) = cur_line @ [py_take stop d]"
    unfolding handle_long_word_def Let_def stop_def hyphen_def space_left_def by simp
  then show ?thesis using piece assms(2,3) by simp
qed

lemma concat_butlast_length: "length (concat (butlast xs)) \<le> length (concat xs)"
  by (induction xs) auto

lemma line_step_fits:
  assumes "0 < width"
  shows "length (concat (fst (line_step U width started chunks))) \<le> width"
proof (cases chunks)
  case Nil
  then show ?thesis by simp
next
  case (Cons c cs)
  define chunks1 where "chunks1 = (if strip U c = [] \<and> started then cs else c # cs)"
  obtain cl n chunks2 where fl: "fill_line width [] 0 chunks1 = (cl, n, chunks2)"
    by (cases "fill_line width [] 0 chunks1") auto
  define r where "r = (case chunks2 of [] \<Rightarrow> (cl, chunks2)
             | d # ds \<Rightarrow> if width < length d then handle_long_word width cl n d ds else (cl, chunks2))"
  define cl3 where "cl3 = (if fst r \<noteq> [] \<and> strip U (last (fst r)) = [] then butlast (fst r) else fst r)"
  have step: "fst (line_step U width started chunks) = cl3"
    using fl by (simp add: Cons chunks1_def r_def cl3_def Let_def split: prod.splits)
  from fill_line_length [OF fl] have n: "n = length (concat cl)" "n \<le> width" by simp_all
  have "length (concat (fst r)) \<le> width"
    using n handle_long_word_fits [OF assms n] by (auto simp: r_def split: list.splits)
  moreover have "length (concat cl3) \<le> length (concat (fst r))"
    by (simp add: cl3_def concat_butlast_length)
  ultimately show ?thesis unfolding step by linarith
qed

lemma wrap_lines_fit:
  "0 < width \<Longrightarrow> \<forall>l \<in> set lines. length l \<le> width \<Longrightarrow>
     \<forall>l \<in> set (wrap_lines U width lines chunks). length l \<le> width"
proof (induction U width lines chunks rule: wrap_lines.induct)
  case (1 U width lines chunks)
  show ?case
  proof (cases "chunks = []")
    case True
    with "1.prems" show ?thesis by (simp add: wrap_lines.simps)
  next
    case False
    let ?st = "line_step U width (lines \<noteq> []) chunks"
    let ?lines = "if fst ?st \<noteq> [] then lines @ [concat (fst ?st)] else lines"
    have "\<forall>l \<in> set ?lines. length l \<le> width"
      using "1.prems" line_step_fits [where width = width and started = "lines \<noteq> []" and chunks = chunks and U = U] by auto
    from "1.IH" [OF False "1.prems"(1) this]
    show ?thesis using False by (subst wrap_lines.simps) simp
  qed
qed


lemma filter_butlast_blank:
  "xs \<noteq> [] \<Longrightarrow> blank U (last xs) \<Longrightarrow> filter (\<lambda>c. \<not> blank U c) (butlast xs) = filter (\<lambda>c. \<not> blank U c) xs"
  by (induction xs) auto

lemma line_step_keeps:
  assumes fit: "\<forall>c \<in> set chunks. length c \<le> width"
  shows "filter (\<lambda>c. \<not> blank U c) (fst (line_step U width started chunks) @ snd (line_step U width started chunks))
           = filter (\<lambda>c. \<not> blank U c) chunks
         \<and> set (snd (line_step U width started chunks)) \<subseteq> set chunks"
proof (cases chunks)
  case Nil
  then show ?thesis by simp
next
  case (Cons c cs)
  define chunks1 where "chunks1 = (if strip U c = [] \<and> started then cs else c # cs)"
  obtain cl n chunks2 where fl: "fill_line width [] 0 chunks1 = (cl, n, chunks2)"
    by (cases "fill_line width [] 0 chunks1") auto
  define cl3 where "cl3 = (if cl \<noteq> [] \<and> strip U (last cl) = [] then butlast cl else cl)"
  have app: "cl @ chunks2 = chunks1" using fill_line_append [OF fl] by simp
  have sub1: "set chunks1 \<subseteq> set chunks" by (auto simp: chunks1_def Cons)
  have sub2: "set chunks2 \<subseteq> set chunks1" using app by auto
  have nolong: "(case chunks2 of [] \<Rightarrow> (cl, chunks2)
             | d # ds \<Rightarrow> if width < length d then handle_long_word width cl n d ds else (cl, chunks2))
             = (cl, chunks2)"
  proof (cases chunks2)
    case Nil
    then show ?thesis by simp
  next
    case (Cons d ds)
    then have "d \<in> set chunks" using sub1 sub2 by auto
    then have "\<not> width < length d" using fit by (auto simp: not_less)
    then show ?thesis by (simp add: Cons)
  qed
  have step: "line_step U width started chunks = (cl3, chunks2)"
    using fl nolong by (simp add: Cons chunks1_def [symmetric] cl3_def Let_def)
  have f1: "filter (\<lambda>c. \<not> blank U c) chunks1 = filter (\<lambda>c. \<not> blank U c) chunks"
    by (simp add: chunks1_def Cons blank_def)
  have f3: "filter (\<lambda>c. \<not> blank U c) cl3 = filter (\<lambda>c. \<not> blank U c) cl"
    using filter_butlast_blank [of cl] by (simp add: cl3_def blank_def)
  have "filter (\<lambda>c. \<not> blank U c) (cl3 @ chunks2) = filter (\<lambda>c. \<not> blank U c) (cl @ chunks2)"
    using f3 by simp
  then show ?thesis using f1 sub1 sub2 by (simp add: step app)
qed

lemma wrap_lines_groups:
  "\<forall>c \<in> set chunks. length c \<le> width \<Longrightarrow> lines = map concat gs \<Longrightarrow>
     \<exists>gs'. wrap_lines U width lines chunks = map concat gs' \<and>
           filter (\<lambda>c. \<not> blank U c) (concat gs') = filter (\<lambda>c. \<not> blank U c) (concat gs @ chunks)"
proof (induction U width lines chunks arbitrary: gs rule: wrap_lines.induct)
  case (1 U width lines chunks)
  show ?case
  proof (cases "chunks = []")
    case True
    with "1.prems" show ?thesis by (auto simp: wrap_lines.simps)
  next
    case False
    let ?st = "line_step U width (lines \<noteq> []) chunks"
    let ?lines = "if fst ?st \<noteq> [] then lines @ [concat (fst ?st)] else lines"
    let ?gs = "if fst ?st \<noteq> [] then gs @ [fst ?st] else gs"
    from line_step_keeps [where started = "lines \<noteq> []" and U = U, OF "1.prems"(1)]
    have keep: "filter (\<lambda>c. \<not> blank U c) (fst ?st @ snd ?st) = filter (\<lambda>c. \<not> blank U c) chunks"
      and sub: "set (snd ?st) \<subseteq> set chunks" by simp_all
    have fit: "\<forall>c \<in> set (snd ?st). length c \<le> width" using sub "1.prems"(1) by auto
    have eq: "?lines = map concat ?gs" using "1.prems"(2) by simp
    from "1.IH" [OF False fit eq] obtain gs' where
      w: "wrap_lines U width ?lines (snd ?st) = map concat gs'" and
      f: "filter (\<lambda>c. \<not> blank U c) (concat gs') = filter (\<lambda>c. \<not> blank U c) (concat ?gs @ snd ?st)"
      by blast
    have "filter (\<lambda>c. \<not> blank U c) (concat ?gs @ snd ?st)
            = filter (\<lambda>c. \<not> blank U c) (concat gs) @ filter (\<lambda>c. \<not> blank U c) (fst ?st @ snd ?st)"
      by simp
    with f keep have "filter (\<lambda>c. \<not> blank U c) (concat gs') = filter (\<lambda>c. \<not> blank U c) (concat gs @ chunks)"
      by simp
    moreover have "wrap_lines U width lines chunks = map concat gs'"
      using False w by (subst wrap_lines.simps) simp
    ultimately show ?thesis by blast
  qed
qed


text \<open>
  C2 (as amended). For every text and every positive width, \<^verbatim>\<open>textwrap.wrap\<close> returns
  lines of at most \<open>W\<close> characters, with no exception for long words: a chunk longer
  than \<open>W\<close> is cut. When every chunk of the text (whitespace run, word, part of a
  hyphenated word) fits in \<open>W\<close>, no chunk is cut: the lines are runs of whole chunks
  in their order, and only blank U chunks are dropped.
\<close>

theorem wrap_within_width:
  assumes "0 < W"
  shows "\<exists>lines. wrap U S W = Inr lines \<and> (\<forall>l \<in> set lines. int (length l) \<le> W) \<and>
           ((\<forall>c \<in> set (split_chunks U S). int (length c) \<le> W) \<longrightarrow>
              (\<exists>groups. lines = map concat groups \<and>
                 filter (\<lambda>c. \<not> blank U c) (concat groups)
                   = filter (\<lambda>c. \<not> blank U c) (split_chunks U S)))"
proof -
  let ?lines = "wrap_lines U (nat W) [] (split_chunks U S)"
  have w: "wrap U S W = Inr ?lines" using assms by (simp add: wrap_def wrap_chunks_def)
  have "\<forall>l \<in> set ?lines. length l \<le> nat W"
    using assms by (intro wrap_lines_fit) simp_all
  then have fit: "\<forall>l \<in> set ?lines. int (length l) \<le> W"
    using assms by (auto simp: le_nat_iff)
  have grp: "\<exists>groups. ?lines = map concat groups \<and>
                 filter (\<lambda>c. \<not> blank U c) (concat groups)
                   = filter (\<lambda>c. \<not> blank U c) (split_chunks U S)"
    if "\<forall>c \<in> set (split_chunks U S). int (length c) \<le> W"
  proof -
    from that have "\<forall>c \<in> set (split_chunks U S). length c \<le> nat W"
      using assms by (auto simp: le_nat_iff)
    from wrap_lines_groups [OF this, of "[]" "[]"] show ?thesis by simp
  qed
  from w fit grp show ?thesis by blast
qed

theorem wrap_within_width_witness:
  "(0::int) < 9 \<and>
   wrap example_unicode (ustr ''The Market Reacts'') 9
     = Inr [ustr ''The'', ustr ''Market'', ustr ''Reacts''] \<and>
   split_chunks example_unicode (ustr ''The Market Reacts'')
     = [ustr ''The'', ustr '' '', ustr ''Market'', ustr '' '', ustr ''Reacts''] \<and>
   (\<exists>lines. wrap example_unicode (ustr ''The Market Reacts'') 9 = Inr lines \<and>
      (\<forall>l \<in> set lines. int (length l) \<le> 9) \<and>
      (\<exists>groups. lines = map concat groups \<and>
         filter (\<lambda>c. \<not> blank example_unicode c) (concat groups)
           = [ustr ''The'', ustr ''Market'', ustr ''Reacts'']))"
proof -
  have s: "split_chunks example_unicode (ustr ''The Market Reacts'')
             = [ustr ''The'', ustr '' '', ustr ''Market'', ustr '' '', ustr ''Reacts'']"
    by code_simp
  have v: "wrap example_unicode (ustr ''The Market Reacts'') 9
             = Inr [ustr ''The'', ustr ''Market'', ustr ''Reacts'']"
    by code_simp
  have f: "filter (\<lambda>c. \<not> blank example_unicode c)
             [ustr ''The'', ustr '' '', ustr ''Market'', ustr '' '', ustr ''Reacts'']
             = [ustr ''The'', ustr ''Market'', ustr ''Reacts'']"
    by code_simp
  have l: "\<forall>c \<in> set [ustr ''The'', ustr '' '', ustr ''Market'', ustr '' '', ustr ''Reacts''].
             int (length c) \<le> 9"
    by (simp add: ustr_def)
  have h: "(0::int) < 9" by simp
  from wrap_within_width [OF h, of example_unicode "ustr ''The Market Reacts''"] s v f l h
  show ?thesis by auto
qed

text \<open>
  C2 as first stated fails: a word longer than the width is cut in the middle, and a
  hyphenated word is broken after its hyphen, also after an accented letter
  (\<^verbatim>\<open>'le caf\xe9-bar'\<close> at width 9 gives \<^verbatim>\<open>['le caf\xe9-', 'bar']\<close>).
\<close>

theorem wrap_splits_long_word:
  "wrap example_unicode (ustr ''abcdef'') 3 = Inr [ustr ''abc'', ustr ''def''] \<and>
   wrap example_unicode (ustr ''aa-bb'') 4 = Inr [ustr ''aa-'', ustr ''bb''] \<and>
   wrap example_unicode [108, 101, 32, 99, 97, 102, 233, 45, 98, 97, 114] 9
     = Inr [[108, 101, 32, 99, 97, 102, 233, 45], [98, 97, 114]]"
  by code_simp

section \<open>Running the overlay compositor\<close>

lemma find_font_file_single:
  "find_font_file E w [n] =
     (if files w (os_path_join (project_font_dir E) n) = None then None
      else Some (os_path_join (project_font_dir E) n))"
  by (simp add: find_font_file_def os_path_exists_def Let_def)

lemma truetype_Inr_exists: "truetype w p sz = Inr f \<Longrightarrow> files w p \<noteq> None"
  by (auto simp: truetype_def split: option.splits)

lemma draw_lines_frame:
  "draw_lines E f spacing margin layer y lines = (layer', y') \<Longrightarrow>
     im_mode layer' = im_mode layer \<and> im_size layer' = im_size layer"
  by (induction lines arbitrary: layer y) (auto simp: draw_text_def)

lemma draw_overlay_frame:
  "im_mode (draw_overlay E tf ef m wt we layer) = im_mode layer \<and>
   im_size (draw_overlay E tf ef m wt we layer) = im_size layer"
proof -
  let ?l1 = "draw_rectangle layer (bg_bbox m (max_line_width E tf ef wt we) (total_height E tf ef wt we)) (RGBA 0 0 0 153)"
  obtain l2 y2 where a: "draw_lines E tf title_spacing m ?l1 m wt = (l2, y2)"
    by (cases "draw_lines E tf title_spacing m ?l1 m wt") auto
  obtain l3 y4 where b: "draw_lines E ef exp_spacing m l2 (y2 + space_between_blocks) we = (l3, y4)"
    by (cases "draw_lines E ef exp_spacing m l2 (y2 + space_between_blocks) we") auto
  have "draw_overlay E tf ef m wt we layer = l3"
    by (simp add: draw_overlay_def Let_def a b)
  then show ?thesis
    using draw_lines_frame [OF a] draw_lines_frame [OF b] by (simp add: draw_rectangle_def)
qed

lemma add_text_to_image_body_run:
  assumes bg: "files w image_path = Some (ImageFile bg)"
    and tf: "truetype w (os_path_join (project_font_dir E) ''Inter-Bold.ttf'') 80 = Inr title_font"
    and ef: "truetype w (os_path_join (project_font_dir E) ''Inter-Regular.ttf'') 45 = Inr explanation_font"
    and wt: "wrap (unicode E) slide_title (wrap_title_at E title_font (fst (im_size bg))) = Inr wrapped_title"
    and we: "wrap (unicode E) slide_text (wrap_exp_at E explanation_font (fst (im_size bg))) = Inr wrapped_explanation"
  shows "add_text_to_image_body E w image_path slide_title slide_text output_path =
     (if writable w output_path
      then (Inr True, w\<lparr>files := (files w)(output_path \<mapsto>
              ImageFile (rendered_overlay E bg title_font explanation_font wrapped_title wrapped_explanation))\<rparr>)
      else (Inl OSError, w))"
proof -
  let ?img = "convert ''RGBA'' bg"
  let ?layer = "draw_overlay E title_font explanation_font (overlay_margin (fst (im_size bg)))
                  wrapped_title wrapped_explanation (image_new ''RGBA'' (im_size bg) (RGBA 255 255 255 0))"
  have op: "image_open w image_path = Inr bg" using bg by (simp add: image_open_def)
  have f1: "find_font_file E w [''Inter-Bold.ttf''] = Some (os_path_join (project_font_dir E) ''Inter-Bold.ttf'')"
    using truetype_Inr_exists [OF tf] by (simp add: find_font_file_single)
  have f2: "find_font_file E w [''Inter-Regular.ttf''] = Some (os_path_join (project_font_dir E) ''Inter-Regular.ttf'')"
    using truetype_Inr_exists [OF ef] by (simp add: find_font_file_single)
  have sz: "im_size ?img = im_size bg" by (simp add: convert_def)
  have ac: "alpha_composite ?img ?layer = Inr (?img\<lparr>im_pixels := AlphaComposite (im_pixels ?img) (im_pixels ?layer)\<rparr>)"
    using draw_overlay_frame [of E title_font explanation_font "overlay_margin (fst (im_size bg))"
            wrapped_title wrapped_explanation "image_new ''RGBA'' (im_size bg) (RGBA 255 255 255 0)"]
    by (simp add: alpha_composite_def convert_def image_new_def)
  have out: "convert ''RGB'' (?img\<lparr>im_pixels := AlphaComposite (im_pixels ?img) (im_pixels ?layer)\<rparr>)
               = rendered_overlay E bg title_font explanation_font wrapped_title wrapped_explanation"
    by (simp add: convert_def rendered_overlay_def)
  show ?thesis
    unfolding add_text_to_image_body_def
    by (simp add: op f1 f2 tf ef wt we sz ac out Let_def save_def)
qed


lemma is_Exception_all: "is_Exception e"
  by (cases e) simp_all

lemma except_Exception_fst_True: "fst (except_Exception r) = Inr True \<longleftrightarrow> fst r = Inr True"
  by (cases r) (auto simp: except_Exception_def is_Exception_all split: sum.splits)

lemma except_Exception_snd: "snd (except_Exception r) = snd r"
  by (cases r) (auto simp: except_Exception_def split: sum.splits)

lemma except_Exception_fst:
  "fst (except_Exception r) = (case fst r of Inl e \<Rightarrow> Inr False | Inr b \<Rightarrow> Inr b)"
  by (cases r) (auto simp: except_Exception_def is_Exception_all split: sum.splits)

lemma image_open_Inr: "image_open w p = Inr im \<longleftrightarrow> files w p = Some (ImageFile im)"
  by (auto simp: image_open_def split: option.splits fsobject.splits)

lemma add_text_to_image_body_True:
  assumes ok: "fst (add_text_to_image_body E w image_path slide_title slide_text output_path) = Inr True"
  shows "\<exists>bg title_font explanation_font wrapped_title wrapped_explanation.
     files w image_path = Some (ImageFile bg) \<and>
     truetype w (os_path_join (project_font_dir E) ''Inter-Bold.ttf'') 80 = Inr title_font \<and>
     truetype w (os_path_join (project_font_dir E) ''Inter-Regular.ttf'') 45 = Inr explanation_font \<and>
     wrap (unicode E) slide_title (wrap_title_at E title_font (fst (im_size bg))) = Inr wrapped_title \<and>
     wrap (unicode E) slide_text (wrap_exp_at E explanation_font (fst (im_size bg))) = Inr wrapped_explanation \<and>
     writable w output_path"
proof -
  let ?B = "add_text_to_image_body E w image_path slide_title slide_text output_path"
  obtain bg where op: "image_open w image_path = Inr bg"
    using ok by (cases "image_open w image_path") (simp_all add: add_text_to_image_body_def)
  let ?tp = "os_path_join (project_font_dir E) ''Inter-Bold.ttf''"
  let ?ep = "os_path_join (project_font_dir E) ''Inter-Regular.ttf''"
  have f1: "find_font_file E w [''Inter-Bold.ttf''] = Some ?tp"
    using ok op
    by (cases "files w ?tp") (simp_all add: add_text_to_image_body_def find_font_file_single Let_def)
  have f2: "find_font_file E w [''Inter-Regular.ttf''] = Some ?ep"
    using ok op f1
    by (cases "files w ?ep") (simp_all add: add_text_to_image_body_def find_font_file_single Let_def)
  obtain tf where tf: "truetype w ?tp 80 = Inr tf"
    using ok op f1 f2 by (cases "truetype w ?tp 80") (simp_all add: add_text_to_image_body_def Let_def)
  obtain ef where ef: "truetype w ?ep 45 = Inr ef"
    using ok op f1 f2 tf by (cases "truetype w ?ep 45") (simp_all add: add_text_to_image_body_def Let_def)
  have sz: "im_size (convert ''RGBA'' bg) = im_size bg" by (simp add: convert_def)
  obtain wt where wt: "wrap (unicode E) slide_title (wrap_title_at E tf (fst (im_size bg))) = Inr wt"
    using ok op f1 f2 tf ef
    by (cases "wrap (unicode E) slide_title (wrap_title_at E tf (fst (im_size bg)))")
       (simp_all add: add_text_to_image_body_def Let_def sz)
  obtain we where we: "wrap (unicode E) slide_text (wrap_exp_at E ef (fst (im_size bg))) = Inr we"
    using ok op f1 f2 tf ef wt
    by (cases "wrap (unicode E) slide_text (wrap_exp_at E ef (fst (im_size bg)))")
       (simp_all add: add_text_to_image_body_def Let_def sz)
  have bgf: "files w image_path = Some (ImageFile bg)" using op by (simp add: image_open_Inr)
  have "writable w output_path"
    using ok add_text_to_image_body_run [OF bgf tf ef wt we, of output_path]
    by (cases "writable w output_path") simp_all
  with bgf tf ef wt we show ?thesis by blast
qed

section \<open>Running the headline renderer\<close>

lemma headline_body_run:
  assumes mf: "truetype w (os_path_join (project_font_dir E) ''PlayfairDisplay-ExtraBold.ttf'') 80 = Inr main_font"
    and tf: "truetype w (os_path_join (project_font_dir E) ''Inter-Bold.ttf'') 24 = Inr tag_font"
    and ff: "truetype w (os_path_join (project_font_dir E) ''Inter-Bold.ttf'') 20 = Inr footer_font"
    and wr: "wrap (unicode E) headline_text (wrap_at_char_count E main_font) = Inr wrapped"
  shows "create_branded_headline_slide_body E w headline_text output_path =
     (if writable w output_path
      then (Inr True, w\<lparr>files := (files w)(output_path \<mapsto>
              ImageFile (rendered_headline E main_font tag_font footer_font wrapped))\<rparr>)
      else (Inl OSError, w))"
proof -
  have f1: "find_font_file E w [''PlayfairDisplay-ExtraBold.ttf'']
              = Some (os_path_join (project_font_dir E) ''PlayfairDisplay-ExtraBold.ttf'')"
    using truetype_Inr_exists [OF mf] by (simp add: find_font_file_single)
  have f2: "find_font_file E w [''Inter-Bold.ttf''] = Some (os_path_join (project_font_dir E) ''Inter-Bold.ttf'')"
    using truetype_Inr_exists [OF tf] by (simp add: find_font_file_single)
  show ?thesis
    unfolding create_branded_headline_slide_body_def
    by (simp add: f1 f2 mf tf ff wr Let_def save_def rendered_headline_def image_new_def
          draw_rectangle_def draw_text_def)
qed

lemma headline_body_True:
  assumes ok: "fst (create_branded_headline_slide_body E w headline_text output_path) = Inr True"
  shows "\<exists>main_font tag_font footer_font wrapped.
     truetype w (os_path_join (project_font_dir E) ''PlayfairDisplay-ExtraBold.ttf'') 80 = Inr main_font \<and>
     truetype w (os_path_join (project_font_dir E) ''Inter-Bold.ttf'') 24 = Inr tag_font \<and>
     truetype w (os_path_join (project_font_dir E) ''Inter-Bold.ttf'') 20 = Inr footer_font \<and>
     wrap (unicode E) headline_text (wrap_at_char_count E main_font) = Inr wrapped \<and>
     writable w output_path"
proof -
  let ?mp = "os_path_join (project_font_dir E) ''PlayfairDisplay-ExtraBold.ttf''"
  let ?tp = "os_path_join (project_font_dir E) ''Inter-Bold.ttf''"
  have f1: "find_font_file E w [''PlayfairDisplay-ExtraBold.ttf''] = Some ?mp"
    using ok
    by (cases "files w ?mp") (simp_all add: create_branded_headline_slide_body_def find_font_file_single Let_def)
  have f2: "find_font_file E w [''Inter-Bold.ttf''] = Some ?tp"
    using ok f1
    by (cases "files w ?tp") (simp_all add: create_branded_headline_slide_body_def find_font_file_single Let_def)
  obtain mf where mf: "truetype w ?mp 80 = Inr mf"
    using ok f1 f2 by (cases "truetype w ?mp 80") (simp_all add: create_branded_headline_slide_body_def Let_def)
  obtain tf where tf: "truetype w ?tp 24 = Inr tf"
    using ok f1 f2 mf by (cases "truetype w ?tp 24") (simp_all add: create_branded_headline_slide_body_def Let_def)
  obtain ff where ff: "truetype w ?tp 20 = Inr ff"
    using ok f1 f2 mf tf by (cases "truetype w ?tp 20") (simp_all add: create_branded_headline_slide_body_def Let_def)
  obtain wr where wr: "wrap (unicode E) headline_text (wrap_at_char_count E mf) = Inr wr"
    using ok f1 f2 mf tf ff
    by (cases "wrap (unicode E) headline_text (wrap_at_char_count E mf)")
       (simp_all add: create_branded_headline_slide_body_def Let_def)
  have "writable w output_path"
    using ok headline_body_run [OF mf tf ff wr, of output_path]
    by (cases "writable w output_path") simp_all
  with mf tf ff wr show ?thesis by blast
qed

section \<open>The entry points\<close>

lemma add_text_to_image_True:
  assumes "fst (add_text_to_image E w image_path slide_title slide_text output_path) = Inr True"
  shows "\<exists>bg title_font explanation_font wrapped_title wrapped_explanation.
     files w image_path = Some (ImageFile bg) \<and>
     truetype w (os_path_join (project_font_dir E) ''Inter-Bold.ttf'') 80 = Inr title_font \<and>
     truetype w (os_path_join (project_font_dir E) ''Inter-Regular.ttf'') 45 = Inr explanation_font \<and>
     wrap (unicode E) slide_title (wrap_title_at E title_font (fst (im_size bg))) = Inr wrapped_title \<and>
     wrap (unicode E) slide_text (wrap_exp_at E explanation_font (fst (im_size bg))) = Inr wrapped_explanation \<and>
     writable w output_path \<and>
     snd (add_text_to_image E w image_path slide_title slide_text output_path) =
       w\<lparr>files := (files w)(output_path \<mapsto>
            ImageFile (rendered_overlay E bg title_font explanation_font wrapped_title wrapped_explanation))\<rparr>"
proof -
  from assms have "fst (add_text_to_image_body E w image_path slide_title slide_text output_path) = Inr True"
    by (simp add: add_text_to_image_def except_Exception_fst_True)
  from add_text_to_image_body_True [OF this] obtain bg tf ef wt we where
    c: "files w image_path = Some (ImageFile bg)"
       "truetype w (os_path_join (project_font_dir E) ''Inter-Bold.ttf'') 80 = Inr tf"
       "truetype w (os_path_join (project_font_dir E) ''Inter-Regular.ttf'') 45 = Inr ef"
       "wrap (unicode E) slide_title (wrap_title_at E tf (fst (im_size bg))) = Inr wt"
       "wrap (unicode E) slide_text (wrap_exp_at E ef (fst (im_size bg))) = Inr we"
       "writable w output_path"
    by blast
  have "snd (add_text_to_image E w image_path slide_title slide_text output_path) =
       w\<lparr>files := (files w)(output_path \<mapsto> ImageFile (rendered_overlay E bg tf ef wt we))\<rparr>"
    using add_text_to_image_body_run [OF c(1-5), of output_path] c(6)
    by (simp add: add_text_to_image_def except_Exception_snd)
  with c show ?thesis by blast
qed


lemma add_text_to_image_not_True:
  "fst (add_text_to_image E w image_path slide_title slide_text output_path) \<noteq> Inr True \<Longrightarrow>
   fst (add_text_to_image E w image_path slide_title slide_text output_path) = Inr False"
  by (simp add: add_text_to_image_def except_Exception_fst split: sum.splits)

lemma headline_True:
  assumes "fst (create_branded_headline_slide E w headline_text output_path) = Inr True"
  shows "\<exists>main_font tag_font footer_font wrapped.
     truetype w (os_path_join (project_font_dir E) ''PlayfairDisplay-ExtraBold.ttf'') 80 = Inr main_font \<and>
     truetype w (os_path_join (project_font_dir E) ''Inter-Bold.ttf'') 24 = Inr tag_font \<and>
     truetype w (os_path_join (project_font_dir E) ''Inter-Bold.ttf'') 20 = Inr footer_font \<and>
     wrap (unicode E) headline_text (wrap_at_char_count E main_font) = Inr wrapped \<and>
     writable w output_path \<and>
     snd (create_branded_headline_slide E w headline_text output_path) =
       w\<lparr>files := (files w)(output_path \<mapsto>
            ImageFile (rendered_headline E main_font tag_font footer_font wrapped))\<rparr>"
proof -
  from assms have "fst (create_branded_headline_slide_body E w headline_text output_path) = Inr True"
    by (simp add: create_branded_headline_slide_def except_Exception_fst_True)
  from headline_body_True [OF this] obtain mf tf ff wr where
    c: "truetype w (os_path_join (project_font_dir E) ''PlayfairDisplay-ExtraBold.ttf'') 80 = Inr mf"
       "truetype w (os_path_join (project_font_dir E) ''Inter-Bold.ttf'') 24 = Inr tf"
       "truetype w (os_path_join (project_font_dir E) ''Inter-Bold.ttf'') 20 = Inr ff"
       "wrap (unicode E) headline_text (wrap_at_char_count E mf) = Inr wr"
       "writable w output_path"
    by blast
  have "snd (create_branded_headline_slide E w headline_text output_path) =
       w\<lparr>files := (files w)(output_path \<mapsto> ImageFile (rendered_headline E mf tf ff wr))\<rparr>"
    using headline_body_run [OF c(1-4), of output_path] c(5)
    by (simp add: create_branded_headline_slide_def except_Exception_snd)
  with c show ?thesis by blast
qed

lemma headline_run:
  assumes "truetype w (os_path_join (project_font_dir E) ''PlayfairDisplay-ExtraBold.ttf'') 80 = Inr main_font"
    and "truetype w (os_path_join (project_font_dir E) ''Inter-Bold.ttf'') 24 = Inr tag_font"
    and "truetype w (os_path_join (project_font_dir E) ''Inter-Bold.ttf'') 20 = Inr footer_font"
    and "wrap (unicode E) headline_text (wrap_at_char_count E main_font) = Inr wrapped"
    and "writable w output_path"
  shows "create_branded_headline_slide E w headline_text output_path =
     (Inr True, w\<lparr>files := (files w)(output_path \<mapsto>
              ImageFile (rendered_headline E main_font tag_font footer_font wrapped))\<rparr>)"
  using headline_body_run [OF assms(1-4), of output_path] assms(5)
  by (simp add: create_branded_headline_slide_def except_Exception_def)

lemma headline_not_True:
  "fst (create_branded_headline_slide E w headline_text output_path) \<noteq> Inr True \<Longrightarrow>
   fst (create_branded_headline_slide E w headline_text output_path) = Inr False"
  by (simp add: create_branded_headline_slide_def except_Exception_fst split: sum.splits)

lemma find_font_file_None_truetype:
  "find_font_file E w [n] = None \<Longrightarrow> truetype w (os_path_join (project_font_dir E) n) sz = Inl OSError"
  by (simp add: find_font_file_single truetype_def split: if_splits)

section \<open>Missing display font\<close>



section \<open>Failures and the diagnostics\<close>

lemma py_print_all: "\<forall>c. encodes stdout c \<Longrightarrow> py_print stdout s = Inr ()"
  by (simp add: py_print_def list_all_iff)

lemma find_font_in_io_all:
  "\<forall>c. encodes stdout c \<Longrightarrow>
     find_font_in_io stdout w dir names font_names = Inr (find_font_in w dir font_names)"
  by (induction font_names) (simp_all add: py_print_all Let_def)

lemma find_font_file_io_all:
  "\<forall>c. encodes stdout c \<Longrightarrow> find_font_file_io stdout E w font_names = Inr (find_font_file E w font_names)"
  by (simp add: find_font_file_io_def find_font_file_def find_font_in_io_all)

lemma except_Exception_io_all:
  "\<forall>c. encodes stdout c \<Longrightarrow> except_Exception_io stdout diagnostic r = except_Exception r"
  by (cases r) (auto simp: except_Exception_io_def except_Exception_def py_print_all split: sum.splits)

text \<open>
  On a standard output that encodes every character the compositor with its \<^verbatim>\<open>print\<close>
  calls is the compositor of the sections above.
\<close>

lemma add_text_to_image_io_all:
  assumes "\<forall>c. encodes stdout c"
  shows "add_text_to_image_io stdout E w image_path slide_title slide_text output_path =
         add_text_to_image E w image_path slide_title slide_text output_path"
proof -
  have "add_text_to_image_body_io stdout E w image_path slide_title slide_text output_path =
        add_text_to_image_body E w image_path slide_title slide_text output_path"
    unfolding add_text_to_image_body_io_def add_text_to_image_body_def
    by (simp add: find_font_file_io_all [OF assms] py_print_all [OF assms] Let_def
          split: sum.splits option.splits prod.splits)
  then show ?thesis
    by (simp add: add_text_to_image_io_def add_text_to_image_def except_Exception_io_all [OF assms])
qed

lemma create_branded_headline_slide_io_all:
  assumes "\<forall>c. encodes stdout c"
  shows "create_branded_headline_slide_io stdout E w headline_text output_path =
         create_branded_headline_slide E w headline_text output_path"
proof -
  have "create_branded_headline_slide_body_io stdout E w headline_text output_path =
        create_branded_headline_slide_body E w headline_text output_path"
    unfolding create_branded_headline_slide_body_io_def create_branded_headline_slide_body_def
    by (simp add: find_font_file_io_all [OF assms] py_print_all [OF assms] Let_def
          split: sum.splits option.splits prod.splits)
  then show ?thesis
    by (simp add: create_branded_headline_slide_io_def create_branded_headline_slide_def
          except_Exception_io_all [OF assms])
qed

text \<open>
  On a standard output that cannot encode the cross mark, the handler's \<^verbatim>\<open>print\<close> raises
  whenever the handler runs: every exception caught leaves the entry point as a
  \<^verbatim>\<open>UnicodeEncodeError\<close>.
\<close>

lemma except_Exception_io_escapes:
  "\<not> encodes stdout cross_mark \<Longrightarrow>
     except_Exception_io stdout (cross_mark # diagnostic) (Inl e, w) = (Inl UnicodeEncodeError, w)"
  by (cases e) (simp_all add: except_Exception_io_def py_print_def)

text \<open>
  C5 fails on the code. Both entry points catch every exception, and the handler prints a
  diagnostic that opens with a cross mark (U+274C) before it returns False. On a
  standard output that encodes ASCII only, that \<^verbatim>\<open>print\<close> raises inside the handler: with
  a background file that does not exist \<^verbatim>\<open>add_text_to_image\<close> raises
  \<^verbatim>\<open>UnicodeEncodeError\<close> instead of returning False, and so does
  \<^verbatim>\<open>create_branded_headline_slide\<close> when the display font is missing.
\<close>

theorem diagnostic_print_escapes:
  "add_text_to_image_io (stdout\<lparr>encodes := ascii_only\<rparr>) example_env example_world
     ''missing.png'' (ustr ''The Market Reacts'') (ustr ''Investors are cautiously optimistic.'')
     ''out.png''
     = (Inl UnicodeEncodeError, example_world) \<and>
   create_branded_headline_slide_io (stdout\<lparr>encodes := ascii_only\<rparr>) example_env
     (example_world\<lparr>files := (files example_world)(example_fonts @ ''/PlayfairDisplay-ExtraBold.ttf'' := None)\<rparr>)
     (ustr ''Central Bank Signals Potential Rate Hike'') ''out.png''
     = (Inl UnicodeEncodeError,
        example_world\<lparr>files := (files example_world)(example_fonts @ ''/PlayfairDisplay-ExtraBold.ttf'' := None)\<rparr>)"
proof
  let ?out = "stdout\<lparr>encodes := ascii_only\<rparr>"
  have x: "\<not> encodes ?out cross_mark" by (simp add: ascii_only_def cross_mark_def)
  have op: "image_open example_world ''missing.png'' = Inl FileNotFoundError" by code_simp
  show "add_text_to_image_io ?out example_env example_world
     ''missing.png'' (ustr ''The Market Reacts'') (ustr ''Investors are cautiously optimistic.'')
     ''out.png'' = (Inl UnicodeEncodeError, example_world)"
    by (simp add: add_text_to_image_io_def add_text_to_image_body_io_def op
          except_Exception_io_escapes [OF x])
next
  let ?out = "stdout\<lparr>encodes := ascii_only\<rparr>"
  let ?w = "example_world\<lparr>files := (files example_world)(example_fonts @ ''/PlayfairDisplay-ExtraBold.ttf'' := None)\<rparr>"
  have x: "\<not> encodes ?out cross_mark" by (simp add: ascii_only_def cross_mark_def)
  have n: "\<not> os_path_exists ?w (os_path_join (project_font_dir example_env) ''PlayfairDisplay-ExtraBold.ttf'')"
    by code_simp
  have p: "py_print ?out (cross_mark # s) = Inl UnicodeEncodeError" for s
    using x by (simp add: py_print_def)
  let ?f1 = "find_font_file_io ?out example_env ?w [''PlayfairDisplay-ExtraBold.ttf'']"
  let ?f2 = "find_font_file_io ?out example_env ?w [''Inter-Bold.ttf'']"
  let ?B = "create_branded_headline_slide_body_io ?out example_env ?w
          (ustr ''Central Bank Signals Potential Rate Hike'') ''out.png''"
  have f1: "?f1 = Inr None \<or> (\<exists>e. ?f1 = Inl e)"
    using n by (simp add: find_font_file_io_def Let_def split: sum.splits)
  have "\<exists>e. ?B = (Inl e, ?w)"
  proof (cases ?f1)
    case (Inl e)
    then show ?thesis by (simp add: create_branded_headline_slide_body_io_def)
  next
    case (Inr opt)
    with f1 have none: "?f1 = Inr None" by simp
    show ?thesis
    proof (cases ?f2)
      case (Inl e)
      then show ?thesis by (simp add: create_branded_headline_slide_body_io_def none)
    next
      case (Inr tag)
      then show ?thesis by (simp add: create_branded_headline_slide_body_io_def none p)
    qed
  qed
  then obtain e where b: "?B = (Inl e, ?w)" by blast
  show "create_branded_headline_slide_io ?out example_env ?w
     (ustr ''Central Bank Signals Potential Rate Hike'') ''out.png'' = (Inl UnicodeEncodeError, ?w)"
    by (simp add: create_branded_headline_slide_io_def b except_Exception_io_escapes [OF x])
qed

section \<open>The output of the overlay compositor\<close>



section \<open>An overlay with no text\<close>

lemma title_spacing_eq: "title_spacing = 16"
  by (simp add: title_spacing_def py_int_def)

lemma exp_spacing_eq: "exp_spacing = 9"
  by (simp add: exp_spacing_def py_int_def)

lemma headline_margin_eq: "headline_margin = 102"
  by code_simp



section \<open>Wrap width\<close>

lemma chars_per_line_fallback: "avg \<le> 0 \<Longrightarrow> chars_per_line usable avg fallback = fallback"
  by (simp add: chars_per_line_def)

lemma chars_per_line_fits:
  assumes "0 < avg" and "avg \<le> of_int usable"
  shows "1 \<le> chars_per_line usable avg fallback"
proof -
  have "1 \<le> of_int usable / avg" using assms by (simp add: le_divide_eq)
  then have "1 \<le> \<lfloor>of_int usable / avg\<rfloor>" by (simp add: le_floor_iff)
  moreover have "0 \<le> of_int usable / avg" using assms by simp
  ultimately show ?thesis using assms(1) by (simp add: chars_per_line_def py_int_def)
qed

lemma chars_per_line_zero:
  assumes "0 \<le> usable" and "of_int usable < avg"
  shows "chars_per_line usable avg fallback = 0"
proof -
  have "(0::rat) \<le> of_int usable" using assms(1) by simp
  with assms(2) have pos: "0 < avg" by linarith
  have ge: "0 \<le> of_int usable / avg" using assms pos by simp
  have "of_int usable / avg < 1" using assms pos by (simp add: divide_less_eq)
  with ge have "\<lfloor>of_int usable / avg\<rfloor> = 0" by (simp add: floor_eq_iff)
  then show ?thesis using pos ge by (simp add: chars_per_line_def py_int_def)
qed

lemma max_text_width_pixels_nonneg:
  assumes "0 \<le> img_width"
  shows "0 \<le> max_text_width_pixels img_width"
proof -
  let ?x = "of_int img_width * (0.08::rat)"
  have x0: "0 \<le> ?x" using assms by simp
  then have "py_int ?x = \<lfloor>?x\<rfloor>" by (simp only: py_int_def if_True)
  then have "(of_int (overlay_margin img_width) :: rat) \<le> ?x"
    unfolding overlay_margin_def by (simp only: of_int_floor_le)
  moreover have "?x \<le> of_int img_width / 2" using assms by simp
  ultimately have "(of_int (2 * overlay_margin img_width) :: rat) \<le> of_int img_width"
    by simp
  then have "2 * overlay_margin img_width \<le> img_width"
    by (simp only: of_int_le_iff)
  then show ?thesis by (simp add: max_text_width_pixels_def)
qed

lemma wrap_Inr_positive: "wrap U S W = Inr ls \<Longrightarrow> 0 < W"
  by (simp add: wrap_def wrap_chunks_def split: if_splits)

lemma wrap_invalid_width: "W \<le> 0 \<Longrightarrow> wrap U S W = Inl ValueError"
  by (simp add: wrap_def wrap_chunks_def)


text \<open>
  C3 (as amended). A measured reference width that is zero or negative gives the fixed
  fallback count (20 for the headline, 30 for the title, 50 for the body). A positive
  reference width gives a wrap width of at least 1 exactly when the reference glyph is no
  wider than the usable width; when it is wider, the wrap width is 0, the wrapping step
  refuses it with \<^verbatim>\<open>ValueError\<close>, and the render returns False.
\<close>

theorem wrap_width_cases:
  "(textlength E main_font (ustr ''A'') \<le> 0 \<longrightarrow> wrap_at_char_count E main_font = 20) \<and>
   (0 < textlength E main_font (ustr ''A'') \<and> textlength E main_font (ustr ''A'') \<le> 820
      \<longrightarrow> 1 \<le> wrap_at_char_count E main_font) \<and>
   (820 < textlength E main_font (ustr ''A'') \<longrightarrow> wrap_at_char_count E main_font = 0) \<and>
   (textlength E title_font (ustr ''a'') \<le> 0 \<longrightarrow> wrap_title_at E title_font img_width = 30) \<and>
   (0 < textlength E title_font (ustr ''a'') \<and>
    textlength E title_font (ustr ''a'') \<le> of_int (max_text_width_pixels img_width)
      \<longrightarrow> 1 \<le> wrap_title_at E title_font img_width) \<and>
   (0 \<le> img_width \<and> of_int (max_text_width_pixels img_width) < textlength E title_font (ustr ''a'')
      \<longrightarrow> wrap_title_at E title_font img_width = 0) \<and>
   (textlength E explanation_font (ustr ''a'') \<le> 0 \<longrightarrow> wrap_exp_at E explanation_font img_width = 50) \<and>
   (0 < textlength E explanation_font (ustr ''a'') \<and>
    textlength E explanation_font (ustr ''a'') \<le> of_int (max_text_width_pixels img_width)
      \<longrightarrow> 1 \<le> wrap_exp_at E explanation_font img_width) \<and>
   (0 \<le> img_width \<and> of_int (max_text_width_pixels img_width) < textlength E explanation_font (ustr ''a'')
      \<longrightarrow> wrap_exp_at E explanation_font img_width = 0) \<and>
   (W \<le> 0 \<longrightarrow> wrap U S W = Inl ValueError) \<and>
   (fst (add_text_to_image E w image_path slide_title slide_text output_path) = Inr True
      \<longrightarrow> (\<exists>bg tf ef. files w image_path = Some (ImageFile bg) \<and>
             truetype w (os_path_join (project_font_dir E) ''Inter-Bold.ttf'') 80 = Inr tf \<and>
             truetype w (os_path_join (project_font_dir E) ''Inter-Regular.ttf'') 45 = Inr ef \<and>
             1 \<le> wrap_title_at E tf (fst (im_size bg)) \<and>
             1 \<le> wrap_exp_at E ef (fst (im_size bg)))) \<and>
   (fst (create_branded_headline_slide E w headline_text output_path) = Inr True
      \<longrightarrow> (\<exists>mf. truetype w (os_path_join (project_font_dir E) ''PlayfairDisplay-ExtraBold.ttf'') 80 = Inr mf \<and>
             1 \<le> wrap_at_char_count E mf))"
proof -
  have hm: "1024 - 2 * headline_margin = 820" by (simp add: headline_margin_eq)
  have h1: "textlength E main_font (ustr ''A'') \<le> 0 \<longrightarrow> wrap_at_char_count E main_font = 20"
    by (simp add: wrap_at_char_count_def chars_per_line_fallback)
  have h2: "0 < textlength E main_font (ustr ''A'') \<and> textlength E main_font (ustr ''A'') \<le> 820
      \<longrightarrow> 1 \<le> wrap_at_char_count E main_font"
    using chars_per_line_fits [of "textlength E main_font (ustr ''A'')" 820 20]
    by (simp add: wrap_at_char_count_def hm)
  have h3: "820 < textlength E main_font (ustr ''A'') \<longrightarrow> wrap_at_char_count E main_font = 0"
    using chars_per_line_zero [of 820 "textlength E main_font (ustr ''A'')" 20]
    by (simp add: wrap_at_char_count_def hm)
  have t1: "textlength E title_font (ustr ''a'') \<le> 0 \<longrightarrow> wrap_title_at E title_font img_width = 30"
    by (simp add: wrap_title_at_def chars_per_line_fallback)
  have t2: "0 < textlength E title_font (ustr ''a'') \<and>
    textlength E title_font (ustr ''a'') \<le> of_int (max_text_width_pixels img_width)
      \<longrightarrow> 1 \<le> wrap_title_at E title_font img_width"
    by (simp add: wrap_title_at_def chars_per_line_fits)
  have t3: "0 \<le> img_width \<and> of_int (max_text_width_pixels img_width) < textlength E title_font (ustr ''a'')
      \<longrightarrow> wrap_title_at E title_font img_width = 0"
    by (simp add: wrap_title_at_def chars_per_line_zero max_text_width_pixels_nonneg)
  have e1: "textlength E explanation_font (ustr ''a'') \<le> 0 \<longrightarrow> wrap_exp_at E explanation_font img_width = 50"
    by (simp add: wrap_exp_at_def chars_per_line_fallback)
  have e2: "0 < textlength E explanation_font (ustr ''a'') \<and>
    textlength E explanation_font (ustr ''a'') \<le> of_int (max_text_width_pixels img_width)
      \<longrightarrow> 1 \<le> wrap_exp_at E explanation_font img_width"
    by (simp add: wrap_exp_at_def chars_per_line_fits)
  have e3: "0 \<le> img_width \<and> of_int (max_text_width_pixels img_width) < textlength E explanation_font (ustr ''a'')
      \<longrightarrow> wrap_exp_at E explanation_font img_width = 0"
    by (simp add: wrap_exp_at_def chars_per_line_zero max_text_width_pixels_nonneg)
  have v: "W \<le> 0 \<longrightarrow> wrap U S W = Inl ValueError"
    by (simp add: wrap_invalid_width)
  have a: "fst (add_text_to_image E w image_path slide_title slide_text output_path) = Inr True
      \<longrightarrow> (\<exists>bg tf ef. files w image_path = Some (ImageFile bg) \<and>
             truetype w (os_path_join (project_font_dir E) ''Inter-Bold.ttf'') 80 = Inr tf \<and>
             truetype w (os_path_join (project_font_dir E) ''Inter-Regular.ttf'') 45 = Inr ef \<and>
             1 \<le> wrap_title_at E tf (fst (im_size bg)) \<and>
             1 \<le> wrap_exp_at E ef (fst (im_size bg)))"
  proof
    assume "fst (add_text_to_image E w image_path slide_title slide_text output_path) = Inr True"
    from add_text_to_image_True [OF this] obtain bg tf ef wt we where
      c: "files w image_path = Some (ImageFile bg)"
         "truetype w (os_path_join (project_font_dir E) ''Inter-Bold.ttf'') 80 = Inr tf"
         "truetype w (os_path_join (project_font_dir E) ''Inter-Regular.ttf'') 45 = Inr ef"
         "wrap (unicode E) slide_title (wrap_title_at E tf (fst (im_size bg))) = Inr wt"
         "wrap (unicode E) slide_text (wrap_exp_at E ef (fst (im_size bg))) = Inr we"
      by blast
    from wrap_Inr_positive [OF c(4)] wrap_Inr_positive [OF c(5)]
    have "1 \<le> wrap_title_at E tf (fst (im_size bg))" "1 \<le> wrap_exp_at E ef (fst (im_size bg))"
      by simp_all
    with c(1-3) show "\<exists>bg tf ef. files w image_path = Some (ImageFile bg) \<and>
             truetype w (os_path_join (project_font_dir E) ''Inter-Bold.ttf'') 80 = Inr tf \<and>
             truetype w (os_path_join (project_font_dir E) ''Inter-Regular.ttf'') 45 = Inr ef \<and>
             1 \<le> wrap_title_at E tf (fst (im_size bg)) \<and>
             1 \<le> wrap_exp_at E ef (fst (im_size bg))"
      by blast
  qed
  have h: "fst (create_branded_headline_slide E w headline_text output_path) = Inr True
      \<longrightarrow> (\<exists>mf. truetype w (os_path_join (project_font_dir E) ''PlayfairDisplay-ExtraBold.ttf'') 80 = Inr mf \<and>
             1 \<le> wrap_at_char_count E mf)"
  proof
    assume "fst (create_branded_headline_slide E w headline_text output_path) = Inr True"
    from headline_True [OF this] obtain mf wd where
      c: "truetype w (os_path_join (project_font_dir E) ''PlayfairDisplay-ExtraBold.ttf'') 80 = Inr mf"
         "wrap (unicode E) headline_text (wrap_at_char_count E mf) = Inr wd"
      by blast
    from wrap_Inr_positive [OF c(2)] have "1 \<le> wrap_at_char_count E mf" by simp
    with c(1) show "\<exists>mf. truetype w (os_path_join (project_font_dir E) ''PlayfairDisplay-ExtraBold.ttf'') 80 = Inr mf \<and>
             1 \<le> wrap_at_char_count E mf"
      by blast
  qed
  from h1 h2 h3 t1 t2 t3 e1 e2 e3 v a h show ?thesis by (intro conjI)
qed

text \<open>
  C3 as first stated fails: on a background 32 pixels wide the usable width is 28, the
  80pt reference glyph measures 40, the title's wrap width is 0, and the render returns
  False.
\<close>

theorem wrap_width_zero_on_narrow_background:
  "files example_world ''small.png''
     = Some (ImageFile \<lparr>im_mode = ''RGB'', im_size = (32, 32), im_pixels = Stored 1\<rparr>) \<and>
   truetype example_world (os_path_join (project_font_dir example_env) ''Inter-Bold.ttf'') 80
     = Inr \<lparr>typeface = 2, font_size = 80\<rparr> \<and>
   textlength example_env \<lparr>typeface = 2, font_size = 80\<rparr> (ustr ''a'') = 40 \<and>
   max_text_width_pixels 32 = 28 \<and>
   wrap_title_at example_env \<lparr>typeface = 2, font_size = 80\<rparr> 32 = 0 \<and>
   wrap (unicode example_env) (ustr ''The Market Reacts'') (wrap_title_at example_env \<lparr>typeface = 2, font_size = 80\<rparr> 32)
     = Inl ValueError \<and>
   fst (add_text_to_image example_env example_world ''small.png'' (ustr ''The Market Reacts'')
          (ustr ''Investors are cautiously optimistic.'') ''out.png'') = Inr False"
  by code_simp


theorem wrap_width_cases_witness:
  "textlength (example_env\<lparr>textlength := (\<lambda>f s. 0)\<rparr>) \<lparr>typeface = 1, font_size = 80\<rparr> (ustr ''A'') \<le> 0 \<and>
   wrap_at_char_count (example_env\<lparr>textlength := (\<lambda>f s. 0)\<rparr>) \<lparr>typeface = 1, font_size = 80\<rparr> = 20 \<and>
   textlength (example_env\<lparr>textlength := (\<lambda>f s. 0)\<rparr>) \<lparr>typeface = 2, font_size = 80\<rparr> (ustr ''a'') \<le> 0 \<and>
   wrap_title_at (example_env\<lparr>textlength := (\<lambda>f s. 0)\<rparr>) \<lparr>typeface = 2, font_size = 80\<rparr> 1024 = 30 \<and>
   textlength (example_env\<lparr>textlength := (\<lambda>f s. 0)\<rparr>) \<lparr>typeface = 3, font_size = 45\<rparr> (ustr ''a'') \<le> 0 \<and>
   wrap_exp_at (example_env\<lparr>textlength := (\<lambda>f s. 0)\<rparr>) \<lparr>typeface = 3, font_size = 45\<rparr> 1024 = 50 \<and>
   0 < textlength example_env \<lparr>typeface = 1, font_size = 80\<rparr> (ustr ''A'') \<and>
   textlength example_env \<lparr>typeface = 1, font_size = 80\<rparr> (ustr ''A'') \<le> 820 \<and>
   1 \<le> wrap_at_char_count example_env \<lparr>typeface = 1, font_size = 80\<rparr> \<and>
   0 < textlength example_env \<lparr>typeface = 2, font_size = 80\<rparr> (ustr ''a'') \<and>
   textlength example_env \<lparr>typeface = 2, font_size = 80\<rparr> (ustr ''a'') \<le> of_int (max_text_width_pixels 1024) \<and>
   1 \<le> wrap_title_at example_env \<lparr>typeface = 2, font_size = 80\<rparr> 1024 \<and>
   0 < textlength example_env \<lparr>typeface = 3, font_size = 45\<rparr> (ustr ''a'') \<and>
   textlength example_env \<lparr>typeface = 3, font_size = 45\<rparr> (ustr ''a'') \<le> of_int (max_text_width_pixels 1024) \<and>
   1 \<le> wrap_exp_at example_env \<lparr>typeface = 3, font_size = 45\<rparr> 1024 \<and>
   (0::int) \<le> 32 \<and>
   of_int (max_text_width_pixels 32) < textlength example_env \<lparr>typeface = 2, font_size = 80\<rparr> (ustr ''a'') \<and>
   wrap_title_at example_env \<lparr>typeface = 2, font_size = 80\<rparr> 32 = 0 \<and>
   wrap (unicode example_env) (ustr ''The Market Reacts'') 0 = Inl ValueError"
proof -
  let ?E0 = "example_env\<lparr>textlength := (\<lambda>f s. 0)\<rparr>"
  let ?mf = "\<lparr>typeface = 1, font_size = 80\<rparr>"
  let ?tf = "\<lparr>typeface = 2, font_size = 80\<rparr>"
  let ?ef = "\<lparr>typeface = 3, font_size = 45\<rparr>"
  have z: "textlength ?E0 ?mf (ustr ''A'') \<le> 0" "textlength ?E0 ?tf (ustr ''a'') \<le> 0" "textlength ?E0 ?ef (ustr ''a'') \<le> 0"
    by simp_all
  have p: "0 < textlength example_env ?mf (ustr ''A'')" "textlength example_env ?mf (ustr ''A'') \<le> 820"
      "0 < textlength example_env ?tf (ustr ''a'')"
      "textlength example_env ?tf (ustr ''a'') \<le> of_int (max_text_width_pixels 1024)"
      "0 < textlength example_env ?ef (ustr ''a'')"
      "textlength example_env ?ef (ustr ''a'') \<le> of_int (max_text_width_pixels 1024)"
    by code_simp+
  have n: "(0::int) \<le> 32" "of_int (max_text_width_pixels 32) < textlength example_env ?tf (ustr ''a'')"
    by code_simp+
  have w0: "(0::int) \<le> 0" by simp
  note A = wrap_width_cases [where E = ?E0 and main_font = ?mf and title_font = ?tf
         and explanation_font = ?ef and img_width = 1024 and W = 0 and U = "unicode example_env" and S = "ustr ''The Market Reacts''"
         and w = example_world and image_path = "''bg.png''" and slide_title = "ustr ''Hi''"
         and slide_text = "ustr ''Hi''" and output_path = "''out.png''" and headline_text = "ustr ''Hi''"]
  note B = wrap_width_cases [where E = example_env and main_font = ?mf and title_font = ?tf
         and explanation_font = ?ef and img_width = 1024 and W = 0 and U = "unicode example_env" and S = "ustr ''The Market Reacts''"
         and w = example_world and image_path = "''bg.png''" and slide_title = "ustr ''Hi''"
         and slide_text = "ustr ''Hi''" and output_path = "''out.png''" and headline_text = "ustr ''Hi''"]
  note C = wrap_width_cases [where E = example_env and main_font = ?mf and title_font = ?tf
         and explanation_font = ?ef and img_width = 32 and W = 0 and U = "unicode example_env" and S = "ustr ''The Market Reacts''"
         and w = example_world and image_path = "''bg.png''" and slide_title = "ustr ''Hi''"
         and slide_text = "ustr ''Hi''" and output_path = "''out.png''" and headline_text = "ustr ''Hi''"]
  have a1: "wrap_at_char_count ?E0 ?mf = 20"
    using A z(1) by (elim conjE) blast
  have a2: "wrap_title_at ?E0 ?tf 1024 = 30"
    using A z(2) by (elim conjE) blast
  have a3: "wrap_exp_at ?E0 ?ef 1024 = 50"
    using A z(3) by (elim conjE) blast
  have b1: "1 \<le> wrap_at_char_count example_env ?mf"
    using B p(1,2) by (elim conjE) blast
  have b2: "1 \<le> wrap_title_at example_env ?tf 1024"
    using B p(3,4) by (elim conjE) blast
  have b3: "1 \<le> wrap_exp_at example_env ?ef 1024"
    using B p(5,6) by (elim conjE) blast
  have c1: "wrap_title_at example_env ?tf 32 = 0"
    using C n by (elim conjE) blast
  have c2: "wrap (unicode example_env) (ustr ''The Market Reacts'') 0 = Inl ValueError"
    using C w0 by (elim conjE) blast
  from a1 a2 a3 b1 b2 b3 c1 c2 z p n show ?thesis by (intro conjI)
qed

section \<open>Stack height\<close>

lemma add_heights_sum:
  "add_heights E f spacing t ls = t + sum_list (map (\<lambda>l. line_height E f l + spacing) ls)"
  by (induction ls arbitrary: t) simp_all

lemma sum_list_plus_const:
  "sum_list (map (\<lambda>l. h l + (c::int)) ls) = sum_list (map h ls) + c * int (length ls)"
  by (induction ls) (simp_all add: algebra_simps)

lemma spec_block_height_sum:
  "ls \<noteq> [] \<Longrightarrow>
     spec_block_height E f spacing ls
       = sum_list (map (\<lambda>l. line_height E f l + spacing) ls) - spacing"
proof -
  assume ne: "ls \<noteq> []"
  have "sum_list (map (\<lambda>l. line_height E f l + spacing) ls)
          = sum_list (map (line_height E f) ls) + spacing * int (length ls)"
    by (rule sum_list_plus_const)
  then show ?thesis using ne by (simp add: spec_block_height_def right_diff_distrib)
qed

text \<open>
  C1 (as amended). The total stacked height is the title lines' heights and spacings less
  one title spacing, plus the 60px gap, plus the body lines' heights and spacings; the
  gap is added whether or not a block is empty. An empty body block adds nothing to the
  running total. With a non-empty title and an empty body the total is the title block's
  height plus the 60px gap, and the backing rectangle is that high plus the padding above
  and below.
\<close>

theorem total_height_with_gap:
  "total_height E title_font explanation_font wrapped_title wrapped_explanation
     = - title_spacing
       + sum_list (map (\<lambda>l. line_height E title_font l + title_spacing) wrapped_title)
       + space_between_blocks
       + sum_list (map (\<lambda>l. line_height E explanation_font l + exp_spacing) wrapped_explanation) \<and>
   add_heights E explanation_font exp_spacing t [] = t \<and>
   (wrapped_title \<noteq> [] \<longrightarrow>
      total_height E title_font explanation_font wrapped_title []
        = spec_block_height E title_font title_spacing wrapped_title + space_between_blocks \<and>
      box_height (bg_bbox margin mlw (total_height E title_font explanation_font wrapped_title []))
        = of_int (spec_block_height E title_font title_spacing wrapped_title
                    + space_between_blocks + 2 * padding))"
proof -
  have g: "total_height E title_font explanation_font wrapped_title wrapped_explanation
     = - title_spacing
       + sum_list (map (\<lambda>l. line_height E title_font l + title_spacing) wrapped_title)
       + space_between_blocks
       + sum_list (map (\<lambda>l. line_height E explanation_font l + exp_spacing) wrapped_explanation)"
    by (simp add: total_height_def add_heights_sum)
  have e: "add_heights E explanation_font exp_spacing t [] = t" by simp
  have n: "total_height E title_font explanation_font wrapped_title []
        = spec_block_height E title_font title_spacing wrapped_title + space_between_blocks \<and>
      box_height (bg_bbox margin mlw (total_height E title_font explanation_font wrapped_title []))
        = of_int (spec_block_height E title_font title_spacing wrapped_title
                    + space_between_blocks + 2 * padding)"
    if "wrapped_title \<noteq> []"
  proof -
    have a: "total_height E title_font explanation_font wrapped_title []
        = spec_block_height E title_font title_spacing wrapped_title + space_between_blocks"
      using that by (simp add: total_height_def add_heights_sum spec_block_height_sum)
    have "box_height (bg_bbox margin mlw th) = of_int (th + 2 * padding)" for th
      by (simp add: box_height_def bg_bbox_def)
    with a show ?thesis by simp
  qed
  from g e n show ?thesis by blast
qed

theorem total_height_with_gap_witness:
  "[ustr ''Hi''] \<noteq> ([] :: ustring list) \<and>
   spec_block_height example_env \<lparr>typeface = 2, font_size = 80\<rparr> title_spacing [ustr ''Hi''] = 64 \<and>
   total_height example_env \<lparr>typeface = 2, font_size = 80\<rparr> \<lparr>typeface = 3, font_size = 45\<rparr> [ustr ''Hi''] []
     = spec_block_height example_env \<lparr>typeface = 2, font_size = 80\<rparr> title_spacing [ustr ''Hi'']
         + space_between_blocks \<and>
   box_height (bg_bbox 81 80
       (total_height example_env \<lparr>typeface = 2, font_size = 80\<rparr> \<lparr>typeface = 3, font_size = 45\<rparr> [ustr ''Hi''] []))
     = of_int (spec_block_height example_env \<lparr>typeface = 2, font_size = 80\<rparr> title_spacing [ustr ''Hi'']
                 + space_between_blocks + 2 * padding)"
proof -
  have a: "[ustr ''Hi''] \<noteq> ([] :: ustring list)" by simp
  have b: "spec_block_height example_env \<lparr>typeface = 2, font_size = 80\<rparr> title_spacing [ustr ''Hi''] = 64"
    by code_simp
  from total_height_with_gap [where E = example_env and title_font = "\<lparr>typeface = 2, font_size = 80\<rparr>"
         and explanation_font = "\<lparr>typeface = 3, font_size = 45\<rparr>" and wrapped_title = "[ustr ''Hi'']"
         and wrapped_explanation = "[]" and t = 0 and margin = 81 and mlw = 80]
  have c: "total_height example_env \<lparr>typeface = 2, font_size = 80\<rparr> \<lparr>typeface = 3, font_size = 45\<rparr> [ustr ''Hi''] []
     = spec_block_height example_env \<lparr>typeface = 2, font_size = 80\<rparr> title_spacing [ustr ''Hi'']
         + space_between_blocks \<and>
   box_height (bg_bbox 81 80
       (total_height example_env \<lparr>typeface = 2, font_size = 80\<rparr> \<lparr>typeface = 3, font_size = 45\<rparr> [ustr ''Hi''] []))
     = of_int (spec_block_height example_env \<lparr>typeface = 2, font_size = 80\<rparr> title_spacing [ustr ''Hi'']
                 + space_between_blocks + 2 * padding)"
    using a by (elim conjE) blast
  from a b c [THEN conjunct1] c [THEN conjunct2] show ?thesis by (intro conjI)
qed

text \<open>
  C1 as first stated fails: with the title \<open>Hi\<close> (one line, 64 high) and an empty body
  the total height is 124 and the rectangle is 184 high, the 60px gap included.
\<close>

theorem empty_body_keeps_gap:
  "wrap (unicode example_env) [] (wrap_exp_at example_env \<lparr>typeface = 3, font_size = 45\<rparr> 1024) = Inr [] \<and>
   wrap (unicode example_env) (ustr ''Hi'') (wrap_title_at example_env \<lparr>typeface = 2, font_size = 80\<rparr> 1024) = Inr [ustr ''Hi''] \<and>
   spec_block_height example_env \<lparr>typeface = 2, font_size = 80\<rparr> title_spacing [ustr ''Hi''] = 64 \<and>
   total_height example_env \<lparr>typeface = 2, font_size = 80\<rparr> \<lparr>typeface = 3, font_size = 45\<rparr> [ustr ''Hi''] [] = 124 \<and>
   files (snd (add_text_to_image example_env example_world ''bg.png'' (ustr ''Hi'') [] ''out.png'')) ''out.png''
     = Some (ImageFile
         \<lparr>im_mode = ''RGB'', im_size = (1024, 1024),
          im_pixels = Convert ''RGB''
            (AlphaComposite (Convert ''RGBA'' (Stored 0))
               (Text
                  (Rectangle (Fill (RGBA 255 255 255 0)) (51, 51, 191, 235) (RGBA 0 0 0 153))
                  (81, 81) (ustr ''Hi'') \<lparr>typeface = 2, font_size = 80\<rparr> (Name ''white'') ''la''))\<rparr>) \<and>
   box_height (51, 51, 191, 235) = 184 \<and>
   padding = 30"
  by code_simp

section \<open>The backing rectangle\<close>

lemma draw_lines_pixels:
  "draw_lines E f spacing margin layer y lines = (layer', y') \<Longrightarrow>
     texts_of (im_pixels layer') = texts_of (im_pixels layer) @ placed E f spacing margin y lines \<and>
     rectangles_of (im_pixels layer') = rectangles_of (im_pixels layer) \<and>
     y' = add_heights E f spacing y lines"
proof (induction lines arbitrary: layer y)
  case Nil
  then show ?case by auto
next
  case (Cons line lines)
  let ?l = "draw_text layer (of_int margin, of_int y) line f (Name ''white'') ''la''"
  from Cons.prems
  have "draw_lines E f spacing margin ?l (y + (line_height E f line + spacing)) lines = (layer', y')"
    by simp
  from Cons.IH [OF this] show ?case by (simp add: draw_text_def)
qed

lemma draw_overlay_pixels:
  "texts_of (im_pixels (draw_overlay E tf ef m wt we layer))
     = texts_of (im_pixels layer) @ placed E tf title_spacing m m wt
         @ placed E ef exp_spacing m (add_heights E tf title_spacing m wt + space_between_blocks) we \<and>
   rectangles_of (im_pixels (draw_overlay E tf ef m wt we layer))
     = rectangles_of (im_pixels layer)
         @ [bg_bbox m (max_line_width E tf ef wt we) (total_height E tf ef wt we)]"
proof -
  let ?l1 = "draw_rectangle layer (bg_bbox m (max_line_width E tf ef wt we) (total_height E tf ef wt we)) (RGBA 0 0 0 153)"
  obtain l2 y2 where a: "draw_lines E tf title_spacing m ?l1 m wt = (l2, y2)"
    by (cases "draw_lines E tf title_spacing m ?l1 m wt") auto
  obtain l3 y4 where b: "draw_lines E ef exp_spacing m l2 (y2 + space_between_blocks) we = (l3, y4)"
    by (cases "draw_lines E ef exp_spacing m l2 (y2 + space_between_blocks) we") auto
  have d: "draw_overlay E tf ef m wt we layer = l3"
    by (simp add: draw_overlay_def Let_def a b)
  from draw_lines_pixels [OF a] draw_lines_pixels [OF b] show ?thesis
    by (simp add: d draw_rectangle_def)
qed

lemma add_heights_mono:
  assumes "\<forall>l \<in> set ls. 0 \<le> line_height E f l + spacing"
  shows "t \<le> add_heights E f spacing t ls"
proof -
  have "0 \<le> sum_list (map (\<lambda>l. line_height E f l + spacing) ls)"
    using assms by (intro sum_list_nonneg) auto
  then show ?thesis by (simp add: add_heights_sum)
qed

lemma placed_geometry:
  assumes "((x, y'), s, g) \<in> set (placed E f spacing m y ls)"
    and "\<forall>l \<in> set ls. 0 \<le> line_height E f l + spacing"
  shows "x = of_int m \<and> g = f \<and> s \<in> set ls \<and>
         (\<exists>yi. y' = of_int yi \<and> y \<le> yi \<and>
                yi + (line_height E f s + spacing) \<le> add_heights E f spacing y ls)"
  using assms
proof (induction ls arbitrary: y)
  case Nil
  then show ?case by simp
next
  case (Cons l ls)
  have nn: "\<forall>l \<in> set ls. 0 \<le> line_height E f l + spacing" using Cons.prems(2) by simp
  have l0: "0 \<le> line_height E f l + spacing" using Cons.prems(2) by simp
  show ?case
  proof (cases "((x, y'), s, g) = ((of_int m, of_int y), l, f)")
    case True
    have "y + (line_height E f l + spacing) \<le> add_heights E f spacing (y + (line_height E f l + spacing)) ls"
      using nn by (rule add_heights_mono)
    with True show ?thesis by auto
  next
    case False
    with Cons.prems(1)
    have "((x, y'), s, g) \<in> set (placed E f spacing m (y + (line_height E f l + spacing)) ls)"
      by auto
    from Cons.IH [OF this nn] obtain yi where
      r: "x = of_int m" "g = f" "s \<in> set ls" "y' = of_int yi"
         "y + (line_height E f l + spacing) \<le> yi"
         "yi + (line_height E f s + spacing) \<le> add_heights E f spacing (y + (line_height E f l + spacing)) ls"
      by blast
    from r(5) l0 have "y \<le> yi" by linarith
    with r show ?thesis by auto
  qed
qed

lemma foldl_max_ge: "(a::rat) \<le> foldl max a xs"
  by (induction xs arbitrary: a) (auto intro: order_trans [OF max.cobounded1])

lemma foldl_max_mem: "(x::rat) \<in> set xs \<Longrightarrow> x \<le> foldl max a xs"
proof (induction xs arbitrary: a)
  case Nil
  then show ?case by simp
next
  case (Cons b xs)
  show ?case
  proof (cases "x = b")
    case True
    have "b \<le> max a b" by simp
    also have "\<dots> \<le> foldl max (max a b) xs" by (rule foldl_max_ge)
    finally show ?thesis using True by simp
  next
    case False
    with Cons.prems have "x \<in> set xs" by simp
    from Cons.IH [OF this] show ?thesis by simp
  qed
qed

lemma max_line_width_ge:
  "(s \<in> set wt \<longrightarrow> textlength E tf s \<le> max_line_width E tf ef wt we) \<and>
   (s \<in> set we \<longrightarrow> textlength E ef s \<le> max_line_width E tf ef wt we)"
proof -
  let ?ws = "map (textlength E tf) wt @ map (textlength E ef) we"
  have m: "x \<le> max_line_width E tf ef wt we" if "x \<in> set ?ws" for x
  proof (cases ?ws)
    case Nil
    with that show ?thesis by simp
  next
    case (Cons a as)
    have "x \<le> foldl max a as"
    proof (cases "x = a")
      case True
      then show ?thesis by (simp add: foldl_max_ge)
    next
      case False
      with that Cons have "x \<in> set as" by auto
      then show ?thesis by (rule foldl_max_mem)
    qed
    then show ?thesis by (simp add: max_line_width_def Cons)
  qed
  show ?thesis by (auto intro!: m)
qed


lemma overlay_line_inside:
  assumes t: "((x, y'), s, g) \<in> set (placed E tf title_spacing m m wt
                @ placed E ef exp_spacing m (add_heights E tf title_spacing m wt + space_between_blocks) we)"
    and ht: "\<forall>l \<in> set wt. 0 \<le> line_height E tf l"
    and he: "\<forall>l \<in> set we. 0 \<le> line_height E ef l"
    and bb: "textbbox E g s = (x0, y0, x1, y1)"
    and bx0: "- 30 \<le> x0" and bx1: "of_int x1 \<le> textlength E g s + 30"
    and by0: "- 30 \<le> y0" and by1: "y0 \<le> 23"
  shows "box_inside (ink_box E ((x, y'), s, g))
           (bg_bbox m (max_line_width E tf ef wt we) (total_height E tf ef wt we))"
proof -
  let ?St = "sum_list (map (\<lambda>l. line_height E tf l + title_spacing) wt)"
  let ?Se = "sum_list (map (\<lambda>l. line_height E ef l + exp_spacing) we)"
  let ?th = "total_height E tf ef wt we"
  let ?mlw = "max_line_width E tf ef wt we"
  have nt: "\<forall>l \<in> set wt. 0 \<le> line_height E tf l + title_spacing"
    using ht by (simp add: title_spacing_eq)
  have ne: "\<forall>l \<in> set we. 0 \<le> line_height E ef l + exp_spacing"
    using he by (simp add: exp_spacing_eq)
  have St0: "0 \<le> ?St" using nt by (intro sum_list_nonneg) auto
  have Se0: "0 \<le> ?Se" using ne by (intro sum_list_nonneg) auto
  have th: "?th = ?St + ?Se + 44"
    by (simp add: total_height_def add_heights_sum title_spacing_eq space_between_blocks_def)
  have y3: "add_heights E tf title_spacing m wt + space_between_blocks = m + ?St + 60"
    by (simp add: add_heights_sum space_between_blocks_def)
  have h: "line_height E g s = y1 - y0" using bb by (simp add: line_height_def)
  have geo: "x = of_int m \<and> (\<exists>yi. y' = of_int yi \<and> m \<le> yi \<and> yi + y1 \<le> m + ?th + 30) \<and>
             textlength E g s \<le> ?mlw"
  proof (cases "((x, y'), s, g) \<in> set (placed E tf title_spacing m m wt)")
    case True
    from placed_geometry [OF True nt] obtain yi where
      r: "x = of_int m" "g = tf" "s \<in> set wt" "y' = of_int yi" "m \<le> yi"
         "yi + (line_height E tf s + title_spacing) \<le> add_heights E tf title_spacing m wt"
      by blast
    from r(6) have "yi + (y1 - y0 + 16) \<le> m + ?St"
      using h r(2) by (simp add: add_heights_sum title_spacing_eq)
    then have "yi + y1 \<le> m + ?th + 30" using by1 Se0 th by linarith
    moreover have "textlength E g s \<le> ?mlw"
      using max_line_width_ge [of s wt E tf ef we] r(2,3) by simp
    ultimately show ?thesis using r(1,4,5) by blast
  next
    case False
    with t have "((x, y'), s, g) \<in> set (placed E ef exp_spacing m (m + ?St + 60) we)"
      by (simp add: y3)
    from placed_geometry [OF this ne] obtain yi where
      r: "x = of_int m" "g = ef" "s \<in> set we" "y' = of_int yi" "m + ?St + 60 \<le> yi"
         "yi + (line_height E ef s + exp_spacing) \<le> add_heights E ef exp_spacing (m + ?St + 60) we"
      by blast
    from r(6) have "yi + (y1 - y0 + 9) \<le> m + ?St + 60 + ?Se"
      using h r(2) by (simp add: add_heights_sum exp_spacing_eq)
    then have "yi + y1 \<le> m + ?th + 30" using by1 th by linarith
    moreover have "m \<le> yi" using r(5) St0 by linarith
    moreover have "textlength E g s \<le> ?mlw"
      using max_line_width_ge [of s wt E tf ef we] r(2,3) by simp
    ultimately show ?thesis using r(1,4) by blast
  qed
  then obtain yi where
    g: "x = of_int m" "y' = of_int yi" "m \<le> yi" "yi + y1 \<le> m + ?th + 30"
       "textlength E g s \<le> ?mlw"
    by blast
  have i1: "(of_int (m - 30) :: rat) \<le> of_int (m + x0)" using bx0 by simp
  have i2: "(of_int (m - 30) :: rat) \<le> of_int (yi + y0)" using by0 g(3) by simp
  have i3: "(of_int m :: rat) + of_int x1 \<le> of_int m + ?mlw + 30" using bx1 g(5) by linarith
  have i4: "(of_int (yi + y1) :: rat) \<le> of_int (m + ?th + 30)" using g(4) by (simp only: of_int_le_iff)
  from i1 i2 i3 i4 show ?thesis
    by (simp add: box_inside_def ink_box_def bg_bbox_def padding_def bb g(1,2))
qed


lemma placed_lines:
  "map (\<lambda>t. (fst (snd t), snd (snd t))) (placed E f spacing m y ls) = map (\<lambda>l. (l, f)) ls"
  by (induction ls arbitrary: y) simp_all

lemma placed_covers:
  assumes "l \<in> set ls"
  shows "\<exists>xy. (xy, l, f) \<in> set (placed E f spacing m y ls)"
proof -
  from assms have "(l, f) \<in> set (map (\<lambda>l. (l, f)) ls)" by simp
  then have "(l, f) \<in> set (map (\<lambda>t. (fst (snd t), snd (snd t))) (placed E f spacing m y ls))"
    by (simp only: placed_lines)
  then show ?thesis by force
qed

text \<open>
  C4 (as amended). After a successful \<^verbatim>\<open>add_text_to_image\<close> the overlay layer holds one
  backing rectangle, and it contains the exact bounding box of a drawn line whenever the
  line's box, measured at the origin, starts at most 30px left of the origin, ends at most
  30px right of the line's measured length, and has its top between 30px above and 23px
  below the origin (no drawn line having a negative height). The layout advances by the
  heights of the boxes and never by their top offsets, so a line whose ink starts lower
  is not covered by the statement.
\<close>

theorem backing_rectangle_contains_lines:
  assumes ok: "fst (add_text_to_image E w image_path slide_title slide_text output_path) = Inr True"
    and out: "files (snd (add_text_to_image E w image_path slide_title slide_text output_path)) output_path
                = Some (ImageFile out)"
    and layer: "im_pixels out = Convert ''RGB'' (AlphaComposite background layer)"
    and heights: "\<forall>t \<in> set (texts_of layer). 0 \<le> line_height E (snd (snd t)) (fst (snd t))"
    and t: "(xy, s, f) \<in> set (texts_of layer)"
    and bb: "textbbox E f s = (x0, y0, x1, y1)"
    and bx0: "- 30 \<le> x0" and bx1: "of_int x1 \<le> textlength E f s + 30"
    and by0: "- 30 \<le> y0" and by1: "y0 \<le> 23"
  shows "\<exists>r. rectangles_of layer = [r] \<and> box_inside (ink_box E (xy, s, f)) r"
proof -
  from add_text_to_image_True [OF ok] obtain bg tf ef wt we where
    s: "snd (add_text_to_image E w image_path slide_title slide_text output_path) =
       w\<lparr>files := (files w)(output_path \<mapsto> ImageFile (rendered_overlay E bg tf ef wt we))\<rparr>"
    by blast
  let ?m = "overlay_margin (fst (im_size bg))"
  let ?L = "im_pixels (draw_overlay E tf ef ?m wt we (image_new ''RGBA'' (im_size bg) (RGBA 255 255 255 0)))"
  from out s have "out = rendered_overlay E bg tf ef wt we" by simp
  with layer have l: "layer = ?L" by (simp add: rendered_overlay_def)
  have tx: "texts_of layer = placed E tf title_spacing ?m ?m wt
              @ placed E ef exp_spacing ?m (add_heights E tf title_spacing ?m wt + space_between_blocks) we"
    and rc: "rectangles_of layer = [bg_bbox ?m (max_line_width E tf ef wt we) (total_height E tf ef wt we)]"
    using draw_overlay_pixels [of E tf ef ?m wt we "image_new ''RGBA'' (im_size bg) (RGBA 255 255 255 0)"]
    by (simp_all add: l image_new_def)
  have ht: "\<forall>l \<in> set wt. 0 \<le> line_height E tf l"
  proof
    fix l assume "l \<in> set wt"
    from placed_covers [OF this, of tf E title_spacing ?m ?m] obtain p
      where "(p, l, tf) \<in> set (texts_of layer)" by (auto simp: tx)
    with heights show "0 \<le> line_height E tf l" by force
  qed
  have he: "\<forall>l \<in> set we. 0 \<le> line_height E ef l"
  proof
    fix l assume "l \<in> set we"
    from placed_covers [OF this, of ef E exp_spacing ?m
           "add_heights E tf title_spacing ?m wt + space_between_blocks"] obtain p
      where "(p, l, ef) \<in> set (texts_of layer)" by (auto simp: tx)
    with heights show "0 \<le> line_height E ef l" by force
  qed
  obtain x y' where xy: "xy = (x, y')" by (cases xy)
  from t have "((x, y'), s, f) \<in> set (placed E tf title_spacing ?m ?m wt
              @ placed E ef exp_spacing ?m (add_heights E tf title_spacing ?m wt + space_between_blocks) we)"
    by (simp only: tx xy)
  from overlay_line_inside [OF this ht he bb bx0 bx1 by0 by1] rc show ?thesis
    by (simp add: xy)
qed

text \<open>
  C4 as first stated fails: a body of three full stops is drawn at y = 221 with its ink
  from y = 257 to y = 261, below the rectangle, which ends at y = 248.
\<close>

theorem line_of_full_stops_outside_rectangle:
  "files (snd (add_text_to_image example_env example_world ''bg.png'' (ustr ''Hi'') (ustr ''...'') ''out.png'')) ''out.png''
     = Some (ImageFile
         \<lparr>im_mode = ''RGB'', im_size = (1024, 1024),
          im_pixels = Convert ''RGB''
            (AlphaComposite (Convert ''RGBA'' (Stored 0))
               (Text
                  (Text
                     (Rectangle (Fill (RGBA 255 255 255 0)) (51, 51, 191, 248) (RGBA 0 0 0 153))
                     (81, 81) (ustr ''Hi'') \<lparr>typeface = 2, font_size = 80\<rparr> (Name ''white'') ''la'')
                  (81, 221) (ustr ''...'') \<lparr>typeface = 3, font_size = 45\<rparr> (Name ''white'') ''la''))\<rparr>) \<and>
   textbbox example_env \<lparr>typeface = 3, font_size = 45\<rparr> (ustr ''...'') = (0, 36, 67, 40) \<and>
   ink_box example_env ((81, 221), (ustr ''...''), \<lparr>typeface = 3, font_size = 45\<rparr>) = (81, 257, 148, 261) \<and>
   \<not> box_inside (ink_box example_env ((81, 221), (ustr ''...''), \<lparr>typeface = 3, font_size = 45\<rparr>))
        (51, 51, 191, 248)"
  by code_simp


theorem backing_rectangle_contains_lines_witness:
  "fst (add_text_to_image example_env example_world ''bg.png'' (ustr ''Hi'') (ustr ''ok'') ''out.png'') = Inr True \<and>
   files (snd (add_text_to_image example_env example_world ''bg.png'' (ustr ''Hi'') (ustr ''ok'') ''out.png'')) ''out.png''
     = Some (ImageFile
         \<lparr>im_mode = ''RGB'', im_size = (1024, 1024),
          im_pixels = Convert ''RGB''
            (AlphaComposite (Convert ''RGBA'' (Stored 0))
               (Text
                  (Text
                     (Rectangle (Fill (RGBA 255 255 255 0)) (51, 51, 191, 280) (RGBA 0 0 0 153))
                     (81, 81) (ustr ''Hi'') \<lparr>typeface = 2, font_size = 80\<rparr> (Name ''white'') ''la'')
                  (81, 221) (ustr ''ok'') \<lparr>typeface = 3, font_size = 45\<rparr> (Name ''white'') ''la''))\<rparr>) \<and>
   textbbox example_env \<lparr>typeface = 3, font_size = 45\<rparr> (ustr ''ok'') = (0, 9, 45, 45) \<and>
   (- 30 :: int) \<le> 0 \<and>
   of_int 45 \<le> textlength example_env \<lparr>typeface = 3, font_size = 45\<rparr> (ustr ''ok'') + 30 \<and>
   (9 :: int) \<le> 23 \<and>
   box_inside (ink_box example_env ((81, 221), (ustr ''ok''), \<lparr>typeface = 3, font_size = 45\<rparr>))
     (51, 51, 191, 280)"
proof -
  let ?L = "Text
              (Text
                 (Rectangle (Fill (RGBA 255 255 255 0)) (51, 51, 191, 280) (RGBA 0 0 0 153))
                 (81, 81) (ustr ''Hi'') \<lparr>typeface = 2, font_size = 80\<rparr> (Name ''white'') ''la'')
              (81, 221) (ustr ''ok'') \<lparr>typeface = 3, font_size = 45\<rparr> (Name ''white'') ''la''"
  let ?out = "\<lparr>im_mode = ''RGB'', im_size = (1024, 1024),
               im_pixels = Convert ''RGB'' (AlphaComposite (Convert ''RGBA'' (Stored 0)) ?L)\<rparr>"
  let ?f = "\<lparr>typeface = 3, font_size = 45\<rparr>"
  have ok: "fst (add_text_to_image example_env example_world ''bg.png'' (ustr ''Hi'') (ustr ''ok'') ''out.png'') = Inr True"
    by code_simp
  have out: "files (snd (add_text_to_image example_env example_world ''bg.png'' (ustr ''Hi'') (ustr ''ok'') ''out.png'')) ''out.png''
               = Some (ImageFile ?out)"
    by code_simp
  have layer: "im_pixels ?out = Convert ''RGB'' (AlphaComposite (Convert ''RGBA'' (Stored 0)) ?L)"
    by simp
  have heights: "\<forall>t \<in> set (texts_of ?L). 0 \<le> line_height example_env (snd (snd t)) (fst (snd t))"
    by code_simp
  have t: "((81, 221), (ustr ''ok''), ?f) \<in> set (texts_of ?L)" by simp
  have bb: "textbbox example_env ?f (ustr ''ok'') = (0, 9, 45, 45)" by code_simp
  have b1: "(- 30 :: int) \<le> 0" by simp
  have b2: "of_int 45 \<le> textlength example_env ?f (ustr ''ok'') + 30" by code_simp
  have b3: "(- 30 :: int) \<le> 9" by simp
  have b4: "(9 :: int) \<le> 23" by simp
  have r: "rectangles_of ?L = [(51, 51, 191, 280)]" by simp
  from backing_rectangle_contains_lines [OF ok out layer heights t bb b1 b2 b3 b4]
  have "box_inside (ink_box example_env ((81, 221), (ustr ''ok''), ?f)) (51, 51, 191, 280)"
    by (simp only: r) simp
  with ok out bb b1 b2 b4 show ?thesis by (intro conjI)
qed

end
